theory Spec2Isabelle
  imports Complex_Main "HOL-Library.Multiset" "HOL-Library.Log_Nat"
begin

section \<open>Python values\<close>

text \<open>
  The engine receives decoded JSON and builds dictionaries of the same shape, so a value
  is \<^verbatim>\<open>None\<close>, a bool, an unbounded integer, a float, a string, a list, or a
  dictionary with string keys.  A dictionary is the list of its items in insertion order;
  \<open>map_of\<close> is the lookup.  A float is the number it denotes, or one of the three
  values that are not numbers.  An exception is a value of \<open>py_error\<close>, returned on the
  left of a sum.
\<close>

datatype py_error = TypeError | ValueError | OverflowError | AttributeError
  | IndexError | ZeroDivisionError

datatype pyfloat = Fin rat | PInf | NInf | NaN

datatype pyval = PNone | PBool bool | PInt int | PFloat pyfloat | PStr string
  | PList "pyval list" | PDict "(string \<times> pyval) list"

text \<open>Truth value testing, as \<^verbatim>\<open>if x\<close>, \<^verbatim>\<open>x and y\<close>, \<^verbatim>\<open>x or y\<close> do it.\<close>

fun truthy :: "pyval \<Rightarrow> bool" where
  "truthy PNone = False"
| "truthy (PBool b) = b"
| "truthy (PInt n) = (n \<noteq> 0)"
| "truthy (PFloat f) = (f \<noteq> Fin 0)"
| "truthy (PStr s) = (s \<noteq> [])"
| "truthy (PList xs) = (xs \<noteq> [])"
| "truthy (PDict d) = (d \<noteq> [])"

text \<open>
  \<^verbatim>\<open>v in S\<close> for a Python \<^verbatim>\<open>set\<close> of strings hashes \<open>v\<close> first: a list or a
  dictionary is unhashable and the test raises \<^verbatim>\<open>TypeError\<close>.  \<^verbatim>\<open>v in L\<close> for a
  list of strings compares with \<^verbatim>\<open>==\<close> and never raises.
\<close>

fun in_str_set :: "pyval \<Rightarrow> string set \<Rightarrow> py_error + bool" where
  "in_str_set (PList xs) S = Inl TypeError"
| "in_str_set (PDict d) S = Inl TypeError"
| "in_str_set (PStr s) S = Inr (s \<in> S)"
| "in_str_set v S = Inr False"

fun in_str_list :: "pyval \<Rightarrow> string list \<Rightarrow> bool" where
  "in_str_list (PStr s) L = (s \<in> set L)"
| "in_str_list v L = False"

section \<open>Constants of the engine\<close>

definition MEDIA_TYPES :: "string list" where
  "MEDIA_TYPES = [''unsplash'', ''wikipedia_image'', ''wikimedia'', ''reddit'', ''xkcd'',
     ''meme'', ''tweet'']"

definition VALID_GROUP_ROLES_TEXT :: "string set" where
  "VALID_GROUP_ROLES_TEXT = {''explanation'', ''caption'', ''context'', ''funfact''}"

definition VALID_GROUP_ROLES_MEDIA :: "string set" where
  "VALID_GROUP_ROLES_MEDIA = {''visual'', ''diagram'', ''discussion'', ''humor'', ''social''}"

definition VALID_STRATEGIES :: "string set" where
  "VALID_STRATEGIES = {''deeper'', ''branch'', ''pivot''}"

section \<open>Response validation\<close>

text \<open>
  The validators return a list of messages.  A message is kept as a constructor, with the
  offending value where the source formats it into the text:
  \<open>MissingKey k\<close> is \<^verbatim>\<open>Missing key: k\<close>, \<open>InvalidTextRole v\<close> is
  \<^verbatim>\<open>Invalid text group_role: v\<close>, \<open>InBlock i e\<close> is \<^verbatim>\<open>content_blocks[i]: e\<close>,
  and so on in the order of the source.
\<close>

datatype verr = BlockNotDict | MissingKey string | InvalidTextRole pyval
  | InvalidMediaRole pyval | MissingMedia | MediaNotDict | MissingUrl | MissingSource
  | UnknownBlockType pyval | ResponseNotDict | InvalidStrategy pyval | ScoreNotNumber
  | ScoreOutOfRange pyval | BlocksNotList | InBlock nat verr | NextNodesNotList
  | InitialStrategy pyval | GraphNotDict | GraphMissingNodes | GraphNodesEmpty
  | GraphMissingEdges

definition missing_keys :: "string list \<Rightarrow> (string \<times> pyval) list \<Rightarrow> verr list" where
  "missing_keys required d = map MissingKey (filter (\<lambda>k. map_of d k = None) required)"

text \<open>
  \<^verbatim>\<open>block.get("group_role") and block["group_role"] not in VALID\<close>: the membership test
  runs only for a truthy role.
\<close>

definition role_errors ::
  "(string \<times> pyval) list \<Rightarrow> string set \<Rightarrow> (pyval \<Rightarrow> verr) \<Rightarrow> py_error + verr list" where
  "role_errors d valid mk =
     (case map_of d ''group_role'' of
        None \<Rightarrow> Inr []
      | Some r \<Rightarrow>
          if \<not> truthy r then Inr []
          else (case in_str_set r valid of
                  Inl e \<Rightarrow> Inl e
                | Inr ok \<Rightarrow> Inr (if ok then [] else [mk r])))"

definition media_errors :: "(string \<times> pyval) list \<Rightarrow> verr list" where
  "media_errors d =
     (case map_of d ''media'' of
        None \<Rightarrow> [MissingMedia]
      | Some (PDict m) \<Rightarrow>
          (if map_of m ''url'' = None then [MissingUrl] else [])
          @ (if map_of m ''source'' = None then [MissingSource] else [])
      | Some _ \<Rightarrow> [MediaNotDict])"

definition validate_content_block :: "pyval \<Rightarrow> py_error + verr list" where
  "validate_content_block block =
     (case block of
        PDict d \<Rightarrow>
          (let errors = missing_keys [''id'', ''type'', ''content'', ''group_id'', ''group_role''] d
           in case map_of d ''type'' of
                None \<Rightarrow> Inr errors
              | Some block_type \<Rightarrow>
                  if block_type = PStr ''text'' then
                    (case role_errors d VALID_GROUP_ROLES_TEXT InvalidTextRole of
                       Inl e \<Rightarrow> Inl e
                     | Inr es \<Rightarrow> Inr (errors @ es))
                  else if in_str_list block_type MEDIA_TYPES then
                    (case role_errors d VALID_GROUP_ROLES_MEDIA InvalidMediaRole of
                       Inl e \<Rightarrow> Inl e
                     | Inr es \<Rightarrow> Inr (errors @ es @ media_errors d))
                  else Inr (errors @ [UnknownBlockType block_type]))
      | _ \<Rightarrow> Inr [BlockNotDict])"

text \<open>The loop \<^verbatim>\<open>for i, block in enumerate(response["content_blocks"])\<close>.\<close>

fun validate_blocks :: "nat \<Rightarrow> pyval list \<Rightarrow> py_error + verr list" where
  "validate_blocks i [] = Inr []"
| "validate_blocks i (block # rest) =
     (case validate_content_block block of
        Inl e \<Rightarrow> Inl e
      | Inr block_errors \<Rightarrow>
          (case validate_blocks (Suc i) rest of
             Inl e \<Rightarrow> Inl e
           | Inr errs \<Rightarrow> Inr (map (InBlock i) block_errors @ errs)))"

definition blocks_errors :: "(string \<times> pyval) list \<Rightarrow> py_error + verr list" where
  "blocks_errors d =
     (case map_of d ''content_blocks'' of
        None \<Rightarrow> Inr []
      | Some (PList bs) \<Rightarrow> validate_blocks 0 bs
      | Some _ \<Rightarrow> Inr [BlocksNotList])"

definition next_nodes_errors :: "(string \<times> pyval) list \<Rightarrow> verr list" where
  "next_nodes_errors d =
     (case map_of d ''next_nodes'' of
        None \<Rightarrow> []
      | Some (PList ns) \<Rightarrow> []
      | Some _ \<Rightarrow> [NextNodesNotList])"

text \<open>
  \<^verbatim>\<open>isinstance(score, (int, float))\<close> holds of a bool too; \<^verbatim>\<open>score < 0 or score > 1\<close>
  is false of a NaN.
\<close>

fun score_errors :: "pyval \<Rightarrow> verr list" where
  "score_errors (PBool b) = []"
| "score_errors (PInt n) = (if n < 0 \<or> n > 1 then [ScoreOutOfRange (PInt n)] else [])"
| "score_errors (PFloat (Fin r)) =
     (if r < 0 \<or> r > 1 then [ScoreOutOfRange (PFloat (Fin r))] else [])"
| "score_errors (PFloat NaN) = []"
| "score_errors (PFloat f) = [ScoreOutOfRange (PFloat f)]"
| "score_errors v = [ScoreNotNumber]"

definition validate_response :: "pyval \<Rightarrow> py_error + verr list" where
  "validate_response response =
     (case response of
        PDict d \<Rightarrow>
          (let errors = missing_keys
                 [''content_blocks'', ''next_nodes'', ''strategy_used'', ''engagement_score''] d
           in case (case map_of d ''strategy_used'' of
                      None \<Rightarrow> Inr []
                    | Some st \<Rightarrow>
                        (case in_str_set st VALID_STRATEGIES of
                           Inl e \<Rightarrow> Inl e
                         | Inr ok \<Rightarrow> Inr (if ok then [] else [InvalidStrategy st]))) of
                Inl e \<Rightarrow> Inl e
              | Inr strategy_errs \<Rightarrow>
                  (let score_errs = (case map_of d ''engagement_score'' of
                                       None \<Rightarrow> [] | Some sc \<Rightarrow> score_errors sc)
                   in case blocks_errors d of
                        Inl e \<Rightarrow> Inl e
                      | Inr block_errs \<Rightarrow>
                          Inr (errors @ strategy_errs @ score_errs @ block_errs
                               @ next_nodes_errors d)))
      | _ \<Rightarrow> Inr [ResponseNotDict])"

definition graph_errors :: "(string \<times> pyval) list \<Rightarrow> verr list" where
  "graph_errors d =
     (case map_of d ''graph'' of
        None \<Rightarrow> []
      | Some (PDict g) \<Rightarrow>
          (case map_of g ''nodes'' of
             None \<Rightarrow> [GraphMissingNodes]
           | Some (PList ns) \<Rightarrow> (if length ns = 0 then [GraphNodesEmpty] else [])
           | Some _ \<Rightarrow> [GraphNodesEmpty])
          @ (if map_of g ''edges'' = None then [GraphMissingEdges] else [])
      | Some _ \<Rightarrow> [GraphNotDict])"

definition validate_initial_response :: "pyval \<Rightarrow> py_error + verr list" where
  "validate_initial_response response =
     (case response of
        PDict d \<Rightarrow>
          (let errors = missing_keys
                 [''content_blocks'', ''graph'', ''next_nodes'', ''strategy_used''] d;
               strategy_errs = (case map_of d ''strategy_used'' of
                                  None \<Rightarrow> []
                                | Some st \<Rightarrow>
                                    if st \<noteq> PStr ''deeper'' then [InitialStrategy st] else [])
           in case blocks_errors d of
                Inl e \<Rightarrow> Inl e
              | Inr block_errs \<Rightarrow>
                  Inr (errors @ strategy_errs @ graph_errors d @ block_errs
                       @ next_nodes_errors d))
      | _ \<Rightarrow> Inr [ResponseNotDict])"

section \<open>Media variety tracking\<close>

text \<open>
  The state of a \<^verbatim>\<open>MediaVarietyTracker\<close>: the configured kinds \<^verbatim>\<open>_types\<close>, the rotation
  queue \<^verbatim>\<open>_queue\<close> (a deque, head first) and the kind emitted last, \<^verbatim>\<open>_last\<close>.
  The constructor takes \<^verbatim>\<open>media_types or MEDIA_TYPES\<close>, so neither \<^verbatim>\<open>None\<close> nor an
  empty list configures an empty tracker.
\<close>

record tracker =
  t_types :: "string list"
  t_queue :: "string list"
  t_last :: "string option"

definition new_tracker :: "string list option \<Rightarrow> tracker" where
  "new_tracker media_types =
     (let ts = (case media_types of None \<Rightarrow> MEDIA_TYPES
                | Some xs \<Rightarrow> if xs = [] then MEDIA_TYPES else xs)
      in \<lparr>t_types = ts, t_queue = ts, t_last = None\<rparr>)"

text \<open>
  The loop of \<^verbatim>\<open>next_type\<close> that rotates past a repeat:
  \<^verbatim>\<open>while media_type == self._last and len(self._types) > 1 and attempts < len(self._types)\<close>,
  with body \<^verbatim>\<open>append(media_type); media_type = popleft(); attempts += 1\<close>.  The queue is
  not empty after the append, so the \<^verbatim>\<open>popleft\<close> of the body cannot fail.  The loop
  ends because \<open>attempts\<close> climbs to the number of kinds.
\<close>

function avoid_repeat ::
  "string list \<Rightarrow> string option \<Rightarrow> string list \<Rightarrow> string \<Rightarrow> nat \<Rightarrow> string \<times> string list" where
  "avoid_repeat tys lst q media_type attempts =
     (if Some media_type = lst \<and> length tys > 1 \<and> attempts < length tys
      then avoid_repeat tys lst (tl (q @ [media_type])) (hd (q @ [media_type])) (Suc attempts)
      else (media_type, q))"
  by pat_completeness auto
termination
  by (relation "measure (\<lambda>(tys, lst, q, m, a). length tys - a)") auto

declare avoid_repeat.simps [simp del]

text \<open>
  \<^verbatim>\<open>next_type\<close>.  The argument \<open>shuffled\<close> is the list that \<^verbatim>\<open>random.shuffle\<close> leaves
  when the queue is exhausted (some permutation of the kinds); it is not looked at
  otherwise.  \<^verbatim>\<open>popleft\<close> on an empty deque raises \<^verbatim>\<open>IndexError\<close>.
\<close>

definition next_type :: "string list \<Rightarrow> tracker \<Rightarrow> py_error + (string \<times> tracker)" where
  "next_type shuffled tr =
     (let q0 = (if t_queue tr = [] then shuffled else t_queue tr)
      in case q0 of
           [] \<Rightarrow> Inl IndexError
         | media_type # q1 \<Rightarrow>
             (case avoid_repeat (t_types tr) (t_last tr) q1 media_type 0 of
                (m, q2) \<Rightarrow> Inr (m, tr\<lparr>t_queue := q2, t_last := Some m\<rparr>)))"

text \<open>A sequence of calls, one shuffle outcome supplied for each.\<close>

fun next_types :: "tracker \<Rightarrow> string list list \<Rightarrow> py_error + (string list \<times> tracker)" where
  "next_types tr [] = Inr ([], tr)"
| "next_types tr (sh # shs) =
     (case next_type sh tr of
        Inl e \<Rightarrow> Inl e
      | Inr (m, tr') \<Rightarrow>
          (case next_types tr' shs of
             Inl e \<Rightarrow> Inl e
           | Inr (ms, tr'') \<Rightarrow> Inr (m # ms, tr'')))"

text \<open>
  Two invariants of the tracker state.  The first holds for any configured list: the
  queue holds configured kinds only.  The second is for a list that names no kind twice:
  the queue has no repeats and does not hold the kind emitted last.
\<close>

definition tracker_ok :: "string list \<Rightarrow> tracker \<Rightarrow> bool" where
  "tracker_ok tys tr \<longleftrightarrow> t_types tr = tys \<and> set (t_queue tr) \<subseteq> set tys"

definition tracker_fresh :: "string list \<Rightarrow> tracker \<Rightarrow> bool" where
  "tracker_fresh tys tr \<longleftrightarrow> t_types tr = tys \<and> distinct (t_queue tr)
     \<and> (\<forall>l. t_last tr = Some l \<longrightarrow> l \<notin> set (t_queue tr))"

section \<open>Telemetry sanitization\<close>

text \<open>
  Two services of the Python runtime turn text into numbers and values into text:
  \<^verbatim>\<open>int(s)\<close> for a string \<open>s\<close> (a number, or \<^verbatim>\<open>ValueError\<close>) and \<^verbatim>\<open>str(v)\<close> for a
  value that is not a string.  Their results never decide a claim, so the model takes
  them as parameters and every statement holds for any choice of them.
\<close>

record runtime =
  int_of_str :: "string \<Rightarrow> int option"
  str_of :: "pyval \<Rightarrow> string"

text \<open>
  \<^verbatim>\<open>int(val)\<close>.  A float is truncated towards zero; a NaN raises \<^verbatim>\<open>ValueError\<close>, an
  infinity raises \<^verbatim>\<open>OverflowError\<close>; \<^verbatim>\<open>None\<close>, a list and a dictionary raise
  \<^verbatim>\<open>TypeError\<close>.
\<close>

fun py_int :: "runtime \<Rightarrow> pyval \<Rightarrow> py_error + int" where
  "py_int rt (PBool b) = Inr (if b then 1 else 0)"
| "py_int rt (PInt n) = Inr n"
| "py_int rt (PFloat (Fin r)) = Inr (if r \<ge> 0 then \<lfloor>r\<rfloor> else \<lceil>r\<rceil>)"
| "py_int rt (PFloat NaN) = Inl ValueError"
| "py_int rt (PFloat f) = Inl OverflowError"
| "py_int rt (PStr s) = (case int_of_str rt s of None \<Rightarrow> Inl ValueError | Some n \<Rightarrow> Inr n)"
| "py_int rt v = Inl TypeError"

text \<open>
  One round of the loop of \<^verbatim>\<open>sanitize_time_data\<close> for a numeric key: the argument is
  \<^verbatim>\<open>time_data.get(key)\<close>, \<open>None\<close> when the key is absent.  The \<^verbatim>\<open>except\<close> clause
  names \<^verbatim>\<open>ValueError\<close> and \<^verbatim>\<open>TypeError\<close>; any other exception leaves the function.
\<close>

definition clean_number :: "runtime \<Rightarrow> int \<Rightarrow> pyval option \<Rightarrow> py_error + int" where
  "clean_number rt default_val v =
     (case v of
        None \<Rightarrow> Inr (max 0 default_val)
      | Some PNone \<Rightarrow> Inr (max 0 default_val)
      | Some val \<Rightarrow>
          (case py_int rt val of
             Inr n \<Rightarrow> Inr (max 0 n)
           | Inl ValueError \<Rightarrow> Inr (max 0 default_val)
           | Inl TypeError \<Rightarrow> Inr (max 0 default_val)
           | Inl e \<Rightarrow> Inl e))"

definition clean_node_id :: "runtime \<Rightarrow> pyval option \<Rightarrow> string" where
  "clean_node_id rt v =
     (case v of
        None \<Rightarrow> ''''
      | Some PNone \<Rightarrow> ''''
      | Some (PStr s) \<Rightarrow> s
      | Some val \<Rightarrow> str_of rt val)"

record sample =
  current_node_id :: string
  total_time_on_node_ms :: int
  scroll_events :: int
  go_deeper_clicks :: int
  sections_in_current_node :: int
  time_per_section_ms :: int

definition defaults :: sample where
  "defaults = \<lparr>current_node_id = '''', total_time_on_node_ms = 0, scroll_events = 0,
     go_deeper_clicks = 0, sections_in_current_node = 1, time_per_section_ms = 0\<rparr>"

definition sanitize_time_data :: "runtime \<Rightarrow> pyval \<Rightarrow> py_error + sample" where
  "sanitize_time_data rt time_data =
     (case time_data of
        PDict d \<Rightarrow>
          (case clean_number rt 0 (map_of d ''total_time_on_node_ms'') of
             Inl e \<Rightarrow> Inl e
           | Inr total_ms \<Rightarrow>
          (case clean_number rt 0 (map_of d ''scroll_events'') of
             Inl e \<Rightarrow> Inl e
           | Inr scrolls \<Rightarrow>
          (case clean_number rt 0 (map_of d ''go_deeper_clicks'') of
             Inl e \<Rightarrow> Inl e
           | Inr clicks \<Rightarrow>
          (case clean_number rt 1 (map_of d ''sections_in_current_node'') of
             Inl e \<Rightarrow> Inl e
           | Inr sections \<Rightarrow>
          (case clean_number rt 0 (map_of d ''time_per_section_ms'') of
             Inl e \<Rightarrow> Inl e
           | Inr per_section \<Rightarrow>
               Inr \<lparr>current_node_id = clean_node_id rt (map_of d ''current_node_id''),
                    total_time_on_node_ms = total_ms, scroll_events = scrolls,
                    go_deeper_clicks = clicks,
                    sections_in_current_node = (if sections < 1 then 1 else sections),
                    time_per_section_ms = per_section\<rparr>)))))
      | _ \<Rightarrow> Inr defaults)"

section \<open>Engagement scoring\<close>

text \<open>
  Double precision arithmetic.  A finite double is the rational it denotes; \<open>fl\<close> rounds
  a rational to the nearest double, ties to the even significand, with 53 bits above the
  smallest exponent \<open>-1022\<close> and overflow to an infinity at \<open>2 ^ 1024\<close>.  Zero has no
  sign here.  \<open>binade x\<close> is the exponent \<open>e\<close> with \<open>2 ^ e \<le> |x| < 2 ^ (e + 1)\<close>.
\<close>

definition pow2 :: "int \<Rightarrow> rat" where
  "pow2 e = (if e \<ge> 0 then 2 ^ nat e else 1 / 2 ^ nat (- e))"

definition binade :: "rat \<Rightarrow> int" where
  "binade x = (if \<bar>x\<bar> \<ge> 1 then bitlen \<lfloor>\<bar>x\<bar>\<rfloor> - 1 else - bitlen (\<lceil>1 / \<bar>x\<bar>\<rceil> - 1))"

definition round_half_even :: "rat \<Rightarrow> int" where
  "round_half_even q =
     (let f = \<lfloor>q\<rfloor>; d = q - of_int f
      in if d < 1 / 2 then f else if d > 1 / 2 then f + 1
         else if even f then f else f + 1)"

definition fl :: "rat \<Rightarrow> pyfloat" where
  "fl x =
     (if x = 0 then Fin 0
      else let u = pow2 (max (binade x) (- 1022) - 52);
               y = of_int (round_half_even (x / u)) * u
           in if \<bar>y\<bar> \<ge> pow2 1024 then (if x > 0 then PInf else NInf) else Fin y)"

text \<open>
  The conversion of an integer to a float, as the mixed operations \<^verbatim>\<open>int / float\<close> and
  \<^verbatim>\<open>int * float\<close> do it first: \<^verbatim>\<open>OverflowError\<close> (int too large to convert to float)
  when the integer rounds to \<open>2 ^ 1024\<close> or beyond.
\<close>

definition float_of_int :: "int \<Rightarrow> py_error + pyfloat" where
  "float_of_int n =
     (if \<bar>n\<bar> < 2 ^ 1024 - 2 ^ 970 then Inr (fl (of_int n)) else Inl OverflowError)"

fun fneg :: "pyfloat \<Rightarrow> pyfloat" where
  "fneg (Fin x) = Fin (- x)"
| "fneg PInf = NInf"
| "fneg NInf = PInf"
| "fneg NaN = NaN"

fun fadd :: "pyfloat \<Rightarrow> pyfloat \<Rightarrow> pyfloat" where
  "fadd (Fin x) (Fin y) = fl (x + y)"
| "fadd NaN b = NaN"
| "fadd a NaN = NaN"
| "fadd PInf NInf = NaN"
| "fadd NInf PInf = NaN"
| "fadd PInf b = PInf"
| "fadd NInf b = NInf"
| "fadd a b = b"

fun fmul :: "pyfloat \<Rightarrow> pyfloat \<Rightarrow> pyfloat" where
  "fmul (Fin x) (Fin y) = fl (x * y)"
| "fmul NaN b = NaN"
| "fmul a NaN = NaN"
| "fmul (Fin x) b = (if x = 0 then NaN else if x > 0 then b else fneg b)"
| "fmul a (Fin y) = (if y = 0 then NaN else if y > 0 then a else fneg a)"
| "fmul a b = (if a = b then PInf else NInf)"

text \<open>\<^verbatim>\<open>a / b\<close> on floats: \<^verbatim>\<open>ZeroDivisionError\<close> for a zero divisor.\<close>

fun fdiv :: "pyfloat \<Rightarrow> pyfloat \<Rightarrow> py_error + pyfloat" where
  "fdiv a (Fin y) =
     (if y = 0 then Inl ZeroDivisionError
      else case a of
             Fin x \<Rightarrow> Inr (fl (x / y))
           | NaN \<Rightarrow> Inr NaN
           | _ \<Rightarrow> Inr (if y > 0 then a else fneg a))"
| "fdiv NaN b = Inr NaN"
| "fdiv a NaN = Inr NaN"
| "fdiv (Fin x) b = Inr (Fin 0)"
| "fdiv a b = Inr NaN"

text \<open>\<^verbatim>\<open>a < b\<close> on floats; a comparison with a NaN is false.\<close>

fun flt :: "pyfloat \<Rightarrow> pyfloat \<Rightarrow> bool" where
  "flt (Fin x) (Fin y) = (x < y)"
| "flt NaN b = False"
| "flt a NaN = False"
| "flt NInf b = (b \<noteq> NInf)"
| "flt a PInf = (a \<noteq> PInf)"
| "flt a b = False"

text \<open>
  \<^verbatim>\<open>min(a, b)\<close> and \<^verbatim>\<open>max(a, b)\<close> keep the first argument unless the second is
  strictly smaller (larger).
\<close>

definition fmin :: "pyfloat \<Rightarrow> pyfloat \<Rightarrow> pyfloat" where
  "fmin a b = (if flt b a then b else a)"

definition fmax :: "pyfloat \<Rightarrow> pyfloat \<Rightarrow> pyfloat" where
  "fmax a b = (if flt a b then b else a)"

text \<open>
  \<^verbatim>\<open>a / b\<close> on two integers: the quotient rounded once, \<^verbatim>\<open>OverflowError\<close> when it is
  too large for a float, \<^verbatim>\<open>ZeroDivisionError\<close> for a zero divisor.
\<close>

definition int_truediv :: "int \<Rightarrow> int \<Rightarrow> py_error + pyfloat" where
  "int_truediv a b =
     (if b = 0 then Inl ZeroDivisionError
      else case fl (of_int a / of_int b) of
             Fin q \<Rightarrow> Inr (Fin q)
           | _ \<Rightarrow> Inl OverflowError)"

text \<open>
  \<^verbatim>\<open>round(x, 4)\<close>: the decimal with four places nearest to the value of \<open>x\<close>, ties to
  the even digit, read back as a double.
\<close>

fun round4 :: "pyfloat \<Rightarrow> pyfloat" where
  "round4 (Fin x) = fl (of_int (round_half_even (x * 10000)) / 10000)"
| "round4 a = a"

definition variance_factor :: "sample \<Rightarrow> py_error + pyfloat" where
  "variance_factor td =
     (if total_time_on_node_ms td > 0 \<and> sections_in_current_node td > 0 then
        (case int_truediv (total_time_on_node_ms td) (sections_in_current_node td) of
           Inl e \<Rightarrow> Inl e
         | Inr expected_per_section \<Rightarrow>
             if flt (Fin 0) expected_per_section then
               (case float_of_int (time_per_section_ms td) of
                  Inl e \<Rightarrow> Inl e
                | Inr tps \<Rightarrow>
                    (case fdiv tps expected_per_section of
                       Inl e \<Rightarrow> Inl e
                     | Inr q \<Rightarrow> Inr (fmin (Fin 1) q)))
             else Inr (Fin 0))
      else Inr (Fin 0))"

definition compute_engagement_score :: "runtime \<Rightarrow> pyval \<Rightarrow> py_error + pyfloat" where
  "compute_engagement_score rt time_data =
     (case sanitize_time_data rt time_data of
        Inl e \<Rightarrow> Inl e
      | Inr td \<Rightarrow>
     (case float_of_int (total_time_on_node_ms td) of
        Inl e \<Rightarrow> Inl e
      | Inr time_ms \<Rightarrow>
     (case fdiv time_ms (Fin 60000) of
        Inl e \<Rightarrow> Inl e
      | Inr tq \<Rightarrow>
     (case float_of_int (scroll_events td) of
        Inl e \<Rightarrow> Inl e
      | Inr scrolls \<Rightarrow>
     (case fdiv scrolls (Fin 10) of
        Inl e \<Rightarrow> Inl e
      | Inr sq \<Rightarrow>
     (case float_of_int (go_deeper_clicks td) of
        Inl e \<Rightarrow> Inl e
      | Inr clicks \<Rightarrow>
     (case variance_factor td of
        Inl e \<Rightarrow> Inl e
      | Inr variance \<Rightarrow>
          (let time_factor = fmin (Fin 1) tq;
               scroll_factor = fmin (Fin 1) sq;
               click_factor = fmin (Fin 1) (fmul clicks (Fin (1 / 2)));
               score = fadd (fadd (fadd (fmul (fl (3 / 10)) time_factor)
                                        (fmul (fl (2 / 10)) scroll_factor))
                                  (fmul (fl (3 / 10)) click_factor))
                            (fmul (fl (2 / 10)) variance)
           in Inr (round4 (fmax (Fin 0) (fmin (Fin 1) score)))))))))))"

section \<open>Strategy selection\<close>

text \<open>\<^verbatim>\<open>a >= b\<close> on floats; a comparison with a NaN is false.\<close>

fun fge :: "pyfloat \<Rightarrow> pyfloat \<Rightarrow> bool" where
  "fge (Fin x) (Fin y) = (x \<ge> y)"
| "fge NaN b = False"
| "fge a NaN = False"
| "fge PInf b = True"
| "fge a NInf = True"
| "fge a b = False"

text \<open>
  \<^verbatim>\<open>select_strategy(engagement_score)\<close> of \<^verbatim>\<open>content_engine.py\<close> compares the score with
  the two thresholds, first \<^verbatim>\<open>0.65\<close>, then \<^verbatim>\<open>0.35\<close>.  The thresholds are the doubles
  that the two literals denote, \<open>fl (65 / 100)\<close> and \<open>fl (35 / 100)\<close>; the first lies
  above and the second below the decimal it is written as.  The score is a float, as the
  scorer returns it; Python compares an integer with a float by value, so an integer
  score is the finite value it denotes.
\<close>

definition select_strategy :: "pyfloat \<Rightarrow> string" where
  "select_strategy engagement_score =
     (if fge engagement_score (fl (65 / 100)) then ''deeper''
      else if fge engagement_score (fl (35 / 100)) then ''branch''
      else ''pivot'')"

section \<open>Topic graph\<close>

text \<open>
  The module \<^verbatim>\<open>topic_graph\<close> is imported by the engine but is not among the sources.
  Its tables are parameters here, and its lookup functions are modelled from the
  specification.  A node has the identity of its slug, a label and a description.  The
  table of main topics gives each main topic its subtopic slugs, keyed by strategy.
  The paragraph pools of the engine (\<^verbatim>\<open>TOPIC_POOLS\<close>, a fixed table of six topics with
  three strategies each) are passed in the same way.
\<close>

record node =
  node_id :: string
  node_label :: string
  node_description :: string

record env =
  NODES :: "(string \<times> string \<times> string) list"
  TOPIC_GRAPH :: "(string \<times> (string \<times> string list) list) list"
  TOPIC_POOLS :: "(string \<times> (string \<times> string list) list) list"
  slugify :: "string \<Rightarrow> string"
  runtime_of :: runtime

text \<open>
  Modelled from the spec: \<^verbatim>\<open>get_node(id)\<close> is the node of that slug, or none.
\<close>

definition get_node :: "env \<Rightarrow> string \<Rightarrow> node option" where
  "get_node e i =
     (case map_of (NODES e) i of
        None \<Rightarrow> None
      | Some (l, d) \<Rightarrow> Some \<lparr>node_id = i, node_label = l, node_description = d\<rparr>)"

text \<open>
  Modelled from the spec: \<^verbatim>\<open>get_subtopics(main_topic, strategy)\<close> is the subtopic list
  of a main topic for a strategy, empty for an unknown topic or strategy.
\<close>

definition get_subtopics :: "env \<Rightarrow> string \<Rightarrow> string \<Rightarrow> string list" where
  "get_subtopics e main_topic strategy =
     (case map_of (TOPIC_GRAPH e) main_topic of
        None \<Rightarrow> []
      | Some by_strategy \<Rightarrow>
          (case map_of by_strategy strategy of None \<Rightarrow> [] | Some ids \<Rightarrow> ids))"

text \<open>
  Modelled from the spec: \<^verbatim>\<open>get_subtopic_nodes(main_topic, strategy, exclude)\<close> is the
  list of the nodes of that subtopic list, in its order, minus the excluded slugs.
\<close>

definition get_subtopic_nodes :: "env \<Rightarrow> string \<Rightarrow> string \<Rightarrow> string set \<Rightarrow> node list" where
  "get_subtopic_nodes e main_topic strategy exclude =
     concat (map (\<lambda>i. case get_node e i of None \<Rightarrow> [] | Some n \<Rightarrow> [n])
                 (filter (\<lambda>i. i \<notin> exclude) (get_subtopics e main_topic strategy)))"

text \<open>
  Modelled from the spec: \<^verbatim>\<open>find_topic_for_node(id)\<close> is the first main topic that
  lists the slug among its subtopics, or none.
\<close>

definition find_topic_for_node :: "env \<Rightarrow> string \<Rightarrow> string option" where
  "find_topic_for_node e i =
     map_option fst
       (find (\<lambda>(main_topic, by_strategy). \<exists>ids\<in>set (map snd by_strategy). i \<in> set ids)
             (TOPIC_GRAPH e))"

text \<open>
  \<^verbatim>\<open>topic_id if topic_id in TOPIC_GRAPH else find_topic_for_node(topic_id)\<close>, as both
  assemblers compute it.
\<close>

definition owning_topic :: "env \<Rightarrow> string \<Rightarrow> string option" where
  "owning_topic e topic_id =
     (if map_of (TOPIC_GRAPH e) topic_id \<noteq> None then Some topic_id
      else find_topic_for_node e topic_id)"

text \<open>An unknown topic is its own main topic: \<^verbatim>\<open>if main_topic is None: main_topic = topic_id\<close>.\<close>

definition main_topic_of :: "env \<Rightarrow> string \<Rightarrow> string" where
  "main_topic_of e topic_id =
     (case owning_topic e topic_id of None \<Rightarrow> topic_id | Some m \<Rightarrow> m)"

section \<open>Random draws\<close>

text \<open>
  The random choices of one call are read from a record: \<open>uuid8 k\<close> is the first eight
  hex digits of the \<open>k\<close>-th \<^verbatim>\<open>uuid4()\<close>, \<open>shuffled i\<close> the outcome of the reshuffle in
  the \<open>i\<close>-th group should the queue be exhausted there, \<open>choice i\<close> the draw behind the
  \<open>i\<close>-th \<^verbatim>\<open>random.choice\<close> and \<open>sample_pick j\<close> the draw behind the \<open>j\<close>-th element of
  \<^verbatim>\<open>random.sample\<close>.  A draw selects a position by its remainder modulo the length, so
  every outcome of the library call is the outcome of some draw and conversely.
\<close>

record rnd =
  uuid8 :: "nat \<Rightarrow> string"
  shuffled :: "nat \<Rightarrow> string list"
  choice :: "nat \<Rightarrow> nat"
  sample_pick :: "nat \<Rightarrow> nat"

text \<open>\<^verbatim>\<open>random.sample(xs, k)\<close>: \<open>k\<close> positions drawn without replacement.\<close>

fun sample_by :: "nat list \<Rightarrow> 'a list \<Rightarrow> 'a list" where
  "sample_by [] xs = []"
| "sample_by (p # ps) xs =
     (if xs = [] then []
      else xs ! (p mod length xs)
           # sample_by ps (take (p mod length xs) xs @ drop (Suc (p mod length xs)) xs))"

text \<open>
  Draws in range: the \<open>j\<close>-th draw of a sample from \<open>n\<close> positions is one of the
  \<open>n - j\<close> positions left.  Draws that are uniform in this range and independent are
  what \<^verbatim>\<open>random.sample\<close> consumes.
\<close>

fun in_box :: "nat list \<Rightarrow> nat \<Rightarrow> bool" where
  "in_box [] n = True"
| "in_box (p # ps) n = (p < n \<and> in_box ps (n - 1))"

section \<open>Mock content\<close>

text \<open>\<^verbatim>\<open>_uid(prefix)\<close>, given the eight hex digits drawn.\<close>

definition uid :: "string \<Rightarrow> string \<Rightarrow> string" where
  "uid prefix short = (if prefix \<noteq> [] then prefix @ ''-'' @ short else short)"

text \<open>
  \<^verbatim>\<open>s.replace("-", " ")\<close> and \<^verbatim>\<open>s.title()\<close> on the letters of ASCII: a letter that follows
  a letter is lowered, any other letter is raised.
\<close>

definition is_upper :: "char \<Rightarrow> bool" where
  "is_upper c = (65 \<le> (of_char c :: nat) \<and> (of_char c :: nat) \<le> 90)"

definition is_lower :: "char \<Rightarrow> bool" where
  "is_lower c = (97 \<le> (of_char c :: nat) \<and> (of_char c :: nat) \<le> 122)"

definition to_upper :: "char \<Rightarrow> char" where
  "to_upper c = (if is_lower c then char_of ((of_char c :: nat) - 32) else c)"

definition to_lower :: "char \<Rightarrow> char" where
  "to_lower c = (if is_upper c then char_of ((of_char c :: nat) + 32) else c)"

definition dashes_to_spaces :: "string \<Rightarrow> string" where
  "dashes_to_spaces s = map (\<lambda>c. if c = CHR ''-'' then CHR '' '' else c) s"

fun title_from :: "bool \<Rightarrow> string \<Rightarrow> string" where
  "title_from after_letter [] = []"
| "title_from after_letter (c # cs) =
     (if is_upper c \<or> is_lower c
      then (if after_letter then to_lower c else to_upper c) # title_from True cs
      else c # title_from False cs)"

definition title :: "string \<Rightarrow> string" where
  "title s = title_from False s"

text \<open>\<^verbatim>\<open>node["label"] if node else topic_id.replace("-", " ").title()\<close>.\<close>

definition label_of :: "env \<Rightarrow> string \<Rightarrow> string" where
  "label_of e topic_id =
     (case get_node e topic_id of
        Some n \<Rightarrow> node_label n
      | None \<Rightarrow> title (dashes_to_spaces topic_id))"

text \<open>
  \<^verbatim>\<open>GENERIC_POOL\<close> after \<^verbatim>\<open>t.format(label=label, slug=topic_id)\<close>: the templates name
  \<^verbatim>\<open>{label}\<close> only.  An unknown strategy takes the templates of "deeper".
\<close>

definition generic_pool :: "string \<Rightarrow> string \<Rightarrow> string list" where
  "generic_pool strategy label =
     (if strategy = ''branch'' then
        [label @ '' connects to many neighboring fields. These interdisciplinary connections often lead to the most surprising discoveries.'',
         ''Related fields offer fresh perspectives on '' @ label @ '', revealing unexpected parallels and shared underlying principles.'']
      else if strategy = ''pivot'' then
        [''Stepping back from '' @ label @ '', entirely different scientific domains offer striking analogies and cross-pollination of ideas.'',
         ''Science's greatest breakthroughs often come from connecting seemingly unrelated fields. Moving from '' @ label @ '' to a new domain can spark unexpected insights.'']
      else
        [label @ '' is a fascinating field that continues to evolve. Researchers are uncovering new insights that challenge our previous understanding.'',
         ''The deeper you look into '' @ label @ '', the more complexity emerges. What seems simple on the surface reveals layers of interconnected phenomena.'',
         ''Recent advances in '' @ label @ '' have opened new avenues for research and practical applications that were previously considered impossible.''])"

definition topic_pool :: "env \<Rightarrow> string \<Rightarrow> string \<Rightarrow> string list" where
  "topic_pool e topic_id strategy =
     (case map_of (TOPIC_POOLS e) topic_id of
        None \<Rightarrow> []
      | Some by_strategy \<Rightarrow>
          (case map_of by_strategy strategy of None \<Rightarrow> [] | Some texts \<Rightarrow> texts))"

text \<open>\<^verbatim>\<open>_pick_text(topic_id, strategy, used_texts)\<close>, given the draw of \<^verbatim>\<open>random.choice\<close>.\<close>

definition pick_text :: "env \<Rightarrow> nat \<Rightarrow> string \<Rightarrow> string \<Rightarrow> string set \<Rightarrow> string" where
  "pick_text e draw topic_id strategy used_texts =
     (let pool0 = topic_pool e topic_id strategy;
          pool = (if pool0 = [] then generic_pool strategy (label_of e topic_id) else pool0);
          available0 = filter (\<lambda>t. t \<notin> used_texts) pool;
          available = (if available0 = [] then pool else available0)
      in if available \<noteq> [] then available ! (draw mod length available)
         else ''Exploring '' @ dashes_to_spaces topic_id @ ''.'')"

definition media_role_for_type :: "string \<Rightarrow> string" where
  "media_role_for_type media_type =
     (if media_type = ''unsplash'' then ''visual''
      else if media_type = ''wikipedia_image'' then ''visual''
      else if media_type = ''wikimedia'' then ''diagram''
      else if media_type = ''reddit'' then ''discussion''
      else if media_type = ''xkcd'' then ''humor''
      else if media_type = ''meme'' then ''humor''
      else if media_type = ''tweet'' then ''social''
      else ''visual'')"

definition text_role_for_media :: "string \<Rightarrow> string" where
  "text_role_for_media media_type =
     (if media_type = ''unsplash'' then ''explanation''
      else if media_type = ''wikipedia_image'' then ''explanation''
      else if media_type = ''wikimedia'' then ''caption''
      else if media_type = ''reddit'' then ''context''
      else if media_type = ''xkcd'' then ''funfact''
      else if media_type = ''meme'' then ''funfact''
      else if media_type = ''tweet'' then ''context''
      else ''explanation'')"

text \<open>
  \<^verbatim>\<open>generate_mock_media(media_type, topic_label)\<close> for a media type that is a string; an
  unknown type takes the template of "unsplash".
\<close>

definition unsplash_media :: "string \<Rightarrow> string \<Rightarrow> pyval" where
  "unsplash_media topic_slug topic_label =
     PDict [(''url'', PStr (''https://images.unsplash.com/placeholder-'' @ topic_slug
                           @ ''?w=1080&h=720'')),
            (''source'', PStr ''Unsplash''),
            (''attribution'', PStr (''Photo related to '' @ topic_label @ '' on Unsplash'')),
            (''width'', PInt 1080), (''height'', PInt 720)]"

definition generate_mock_media :: "env \<Rightarrow> string \<Rightarrow> string \<Rightarrow> pyval" where
  "generate_mock_media e media_type topic_label =
     (let topic_slug = slugify e topic_label
      in if media_type = ''wikipedia_image'' then
           PDict [(''url'', PStr (''https://upload.wikimedia.org/placeholder-'' @ topic_slug
                                 @ ''.jpg'')),
                  (''source'', PStr ''Wikipedia''),
                  (''attribution'', PStr (''Image from Wikipedia article: '' @ topic_label)),
                  (''width'', PInt 800), (''height'', PInt 600)]
         else if media_type = ''wikimedia'' then
           PDict [(''url'', PStr (''https://upload.wikimedia.org/commons/placeholder-''
                                 @ topic_slug @ ''-diagram.svg'')),
                  (''source'', PStr ''Wikimedia Commons''),
                  (''attribution'', PStr (''Diagram from Wikimedia Commons: '' @ topic_label)),
                  (''width'', PInt 1200), (''height'', PInt 900),
                  (''description'', PStr (''Scientific diagram illustrating '' @ topic_label))]
         else if media_type = ''reddit'' then
           PDict [(''url'', PStr (''https://reddit.com/r/science/placeholder-'' @ topic_slug)),
                  (''source'', PStr ''r/science''),
                  (''attribution'', PStr (''Discussion about '' @ topic_label @ '' on r/science'')),
                  (''width'', PNone), (''height'', PNone),
                  (''title'', PStr (''Fascinating new research on '' @ topic_label)),
                  (''score'', PInt 1542)]
         else if media_type = ''xkcd'' then
           PDict [(''url'', PStr (''https://imgs.xkcd.com/comics/placeholder-'' @ topic_slug
                                 @ ''.png'')),
                  (''source'', PStr ''xkcd''),
                  (''attribution'', PStr (''xkcd comic related to '' @ topic_label)),
                  (''width'', PInt 740), (''height'', PInt 420),
                  (''alt_text'', PStr (''A humorous take on '' @ topic_label)),
                  (''title'', PStr (''xkcd: '' @ topic_label))]
         else if media_type = ''meme'' then
           PDict [(''url'', PStr (''https://i.imgflip.com/placeholder-'' @ topic_slug @ ''.jpg'')),
                  (''source'', PStr ''Imgflip''),
                  (''attribution'', PStr (''Science meme about '' @ topic_label)),
                  (''width'', PInt 500), (''height'', PInt 500)]
         else if media_type = ''tweet'' then
           PDict [(''url'', PStr (''https://twitter.com/sciencemagazine/status/placeholder-''
                                 @ topic_slug)),
                  (''source'', PStr ''Twitter/X''),
                  (''attribution'', PStr ''@sciencemagazine''),
                  (''width'', PNone), (''height'', PNone),
                  (''text'', PStr (''Exciting developments in '' @ topic_label
                                  @ '' research! New findings suggest...'')),
                  (''likes'', PInt 234), (''retweets'', PInt 87)]
         else unsplash_media topic_slug topic_label)"

text \<open>The dash of the content line is U+2014, three bytes in UTF-8.\<close>

definition em_dash :: string where
  "em_dash = [CHR 0xE2, CHR 0x80, CHR 0x94]"

definition text_block :: "string \<Rightarrow> string \<Rightarrow> string \<Rightarrow> string \<Rightarrow> pyval" where
  "text_block block_id text_content group_id role =
     PDict [(''id'', PStr block_id), (''type'', PStr ''text''), (''content'', PStr text_content),
            (''group_id'', PStr group_id), (''group_role'', PStr role)]"

definition media_block :: "env \<Rightarrow> string \<Rightarrow> string \<Rightarrow> string \<Rightarrow> string \<Rightarrow> pyval" where
  "media_block e block_id media_type label group_id =
     PDict [(''id'', PStr block_id), (''type'', PStr media_type),
            (''content'', PStr (label @ '' '' @ em_dash @ '' '' @ media_type @ '' content'')),
            (''group_id'', PStr group_id),
            (''group_role'', PStr (media_role_for_type media_type)),
            (''media'', generate_mock_media e media_type label)]"

text \<open>
  The loop \<^verbatim>\<open>for _ in range(num_groups)\<close> of \<^verbatim>\<open>generate_content_blocks\<close>: \<open>i\<close> counts
  the groups done, \<open>k\<close> the groups to do.  Group \<open>i\<close> draws three identifiers, for the
  group, the text block and the media block, in this order.
\<close>

fun groups_loop ::
  "env \<Rightarrow> rnd \<Rightarrow> string \<Rightarrow> string \<Rightarrow> string \<Rightarrow> nat \<Rightarrow> nat \<Rightarrow> tracker \<Rightarrow> string set
     \<Rightarrow> py_error + pyval list" where
  "groups_loop e r topic_id main_topic strategy i 0 tr used_texts = Inr []"
| "groups_loop e r topic_id main_topic strategy i (Suc k) tr used_texts =
     (case next_type (shuffled r i) tr of
        Inl err \<Rightarrow> Inl err
      | Inr (media_type, tr') \<Rightarrow>
          (let group_id = uid ''grp'' (uuid8 r (3 * i));
               text_content = pick_text e (choice r i) main_topic strategy used_texts;
               tb = text_block (uid ''text'' (uuid8 r (3 * i + 1))) text_content group_id
                      (text_role_for_media media_type);
               mb = media_block e (uid media_type (uuid8 r (3 * i + 2))) media_type
                      (label_of e topic_id) group_id
           in case groups_loop e r topic_id main_topic strategy (Suc i) k tr'
                     (insert text_content used_texts) of
                Inl err \<Rightarrow> Inl err
              | Inr blocks \<Rightarrow> Inr (tb # mb # blocks)))"

text \<open>A node as the dictionary the graph module returns.\<close>

definition node_dict :: "node \<Rightarrow> pyval" where
  "node_dict n = PDict [(''id'', PStr (node_id n)), (''label'', PStr (node_label n)),
                        (''description'', PStr (node_description n))]"

text \<open>
  The loop \<^verbatim>\<open>for fallback_strategy in ["deeper", "branch", "pivot"]\<close> with its
  \<^verbatim>\<open>break\<close>: the list found last stays when none is non-empty.
\<close>

fun try_strategies :: "env \<Rightarrow> string \<Rightarrow> string set \<Rightarrow> string list \<Rightarrow> node list \<Rightarrow> node list" where
  "try_strategies e main_topic visited [] current = current"
| "try_strategies e main_topic visited (fallback_strategy # rest) current =
     (let next_node_list = get_subtopic_nodes e main_topic fallback_strategy visited
      in if next_node_list \<noteq> [] then next_node_list
         else try_strategies e main_topic visited rest next_node_list)"

definition candidate_nodes :: "env \<Rightarrow> string \<Rightarrow> string \<Rightarrow> string set \<Rightarrow> node list" where
  "candidate_nodes e main_topic strategy visited =
     (let next_node_list = get_subtopic_nodes e main_topic strategy visited
      in if next_node_list = []
         then try_strategies e main_topic visited [''deeper'', ''branch'', ''pivot'']
                next_node_list
         else next_node_list)"

definition mock_next_nodes :: "env \<Rightarrow> rnd \<Rightarrow> string \<Rightarrow> string \<Rightarrow> string set \<Rightarrow> node list" where
  "mock_next_nodes e r main_topic strategy visited =
     (let next_node_list = candidate_nodes e main_topic strategy visited
      in if length next_node_list > 3
         then sample_by (map (sample_pick r) [0, 1, 2]) next_node_list
         else next_node_list)"

definition generate_content_blocks ::
  "env \<Rightarrow> rnd \<Rightarrow> string \<Rightarrow> string \<Rightarrow> string list \<Rightarrow> nat
     \<Rightarrow> py_error + (pyval list \<times> pyval list)" where
  "generate_content_blocks e r topic_id strategy visited_nodes num_groups =
     (let visited = set visited_nodes;
          main_topic = main_topic_of e topic_id
      in case groups_loop e r topic_id main_topic strategy 0 num_groups (new_tracker None) {} of
           Inl err \<Rightarrow> Inl err
         | Inr blocks \<Rightarrow>
             Inr (blocks, map node_dict (mock_next_nodes e r main_topic strategy visited)))"

text \<open>
  The candidate set in the words of the specification: the list of the active strategy
  minus the visited nodes, else the first non-empty one among deeper, branch and pivot,
  else nothing.
\<close>

definition spec_candidates :: "env \<Rightarrow> string \<Rightarrow> string \<Rightarrow> string set \<Rightarrow> node list" where
  "spec_candidates e main_topic strategy visited =
     (case find (\<lambda>l. l \<noteq> [])
             (map (\<lambda>s. get_subtopic_nodes e main_topic s visited)
                  [strategy, ''deeper'', ''branch'', ''pivot'']) of
        None \<Rightarrow> []
      | Some l \<Rightarrow> l)"

text \<open>\<^verbatim>\<open>block["id"]\<close>, and the digits behind the dash of an identifier.\<close>

definition block_id :: "pyval \<Rightarrow> pyval option" where
  "block_id block = (case block of PDict d \<Rightarrow> map_of d ''id'' | _ \<Rightarrow> None)"

definition id_digits :: "pyval option \<Rightarrow> string" where
  "id_digits v = (case v of Some (PStr s) \<Rightarrow> tl (dropWhile (\<lambda>c. c \<noteq> CHR ''-'') s) | _ \<Rightarrow> [])"

text \<open>
  A well-formed block in the words of the specification: it carries id, type, content,
  group_id and group_role; a text block has a role of the text vocabulary; a media block
  has one of the seven media types, a role of the media vocabulary and a media dictionary
  with url and source.
\<close>

definition spec_block_ok :: "pyval \<Rightarrow> bool" where
  "spec_block_ok block =
     (case block of
        PDict d \<Rightarrow>
          list_all (\<lambda>k. map_of d k \<noteq> None)
            [''id'', ''type'', ''content'', ''group_id'', ''group_role'']
          \<and> (case (map_of d ''type'', map_of d ''group_role'') of
                (Some (PStr ty), Some (PStr role)) \<Rightarrow>
                  if ty = ''text'' then role \<in> VALID_GROUP_ROLES_TEXT
                  else ty \<in> set MEDIA_TYPES \<and> role \<in> VALID_GROUP_ROLES_MEDIA
                       \<and> (case map_of d ''media'' of
                              Some (PDict m) \<Rightarrow>
                                map_of m ''url'' \<noteq> None \<and> map_of m ''source'' \<noteq> None
                            | _ \<Rightarrow> False)
              | _ \<Rightarrow> False)
      | _ \<Rightarrow> False)"

section \<open>Live path\<close>

text \<open>
  The module \<^verbatim>\<open>api_clients\<close> is not among the sources, and the orchestrator and the
  media providers are services outside the engine.

  Modelled from the spec: the orchestrator client has a flag \<^verbatim>\<open>is_available\<close> and
  answers a request with a plan, a decoded JSON value, or with none; it never raises.
  The request is the prompt that \<^verbatim>\<open>generate_content_with_claude\<close> formats from the
  topic label, the strategy, the visited nodes, the last paragraph, the engagement
  score and the tables of the graph; the answer is a function of these.

  Modelled from the spec: \<^verbatim>\<open>api_clients.get("claude")\<close> is the client or none.  A
  provider, named by its key in \<^verbatim>\<open>api_clients\<close>, answers a media request for a topic
  label with a media value or with none.  An absent client, a call that raises and a
  call that returns nothing are one outcome, \<open>PNone\<close>, as \<^verbatim>\<open>_resolve_media\<close> treats them
  alike.
\<close>

record request =
  req_topic_label :: string
  req_strategy :: string
  req_visited :: "string list"
  req_last_paragraph :: pyval
  req_engagement_score :: pyval

record orchestrator =
  is_available :: bool
  generate_json :: "request \<Rightarrow> pyval"

record clients =
  claude :: "orchestrator option"
  provider :: "string \<Rightarrow> pyval \<Rightarrow> string \<Rightarrow> pyval"

text \<open>
  \<^verbatim>\<open>generate_content_with_claude\<close>: none without an available client, else the answer
  if it is truthy, a dictionary and has the key \<^verbatim>\<open>groups\<close>, else none.
\<close>

definition generate_content_with_claude :: "clients \<Rightarrow> request \<Rightarrow> pyval option" where
  "generate_content_with_claude c req =
     (case claude c of
        None \<Rightarrow> None
      | Some claude_client \<Rightarrow>
          if \<not> is_available claude_client then None
          else (let result = generate_json claude_client req
                in if truthy result
                      \<and> (case result of PDict d \<Rightarrow> ''groups'' \<in> set (map fst d) | _ \<Rightarrow> False)
                   then Some result else None))"

text \<open>\<^verbatim>\<open>d.get(k, default)\<close> on the items of a dictionary.\<close>

definition dget :: "(string \<times> pyval) list \<Rightarrow> string \<Rightarrow> pyval \<Rightarrow> pyval" where
  "dget d k default_val = (case map_of d k of None \<Rightarrow> default_val | Some v \<Rightarrow> v)"

text \<open>
  \<^verbatim>\<open>v.get(k, default)\<close> on a value: only a dictionary has the method, any other value
  raises \<^verbatim>\<open>AttributeError\<close>.
\<close>

fun py_get :: "pyval \<Rightarrow> string \<Rightarrow> pyval \<Rightarrow> py_error + pyval" where
  "py_get (PDict d) k default_val = Inr (dget d k default_val)"
| "py_get v k default_val = Inl AttributeError"

text \<open>
  The characters of a string.  Strings are kept as UTF-8 here, so a character is a byte
  together with the continuation bytes that follow it.
\<close>

definition is_continuation :: "char \<Rightarrow> bool" where
  "is_continuation c = (128 \<le> (of_char c :: nat) \<and> (of_char c :: nat) < 192)"

fun utf8_chars :: "string \<Rightarrow> string list" where
  "utf8_chars [] = []"
| "utf8_chars (c # cs) =
     (case utf8_chars cs of
        (d # ds) # rest \<Rightarrow>
          if is_continuation d then (c # d # ds) # rest else [c] # (d # ds) # rest
      | _ \<Rightarrow> [[c]])"

text \<open>
  \<^verbatim>\<open>for x in v\<close>: a list yields its elements, a string its characters, a dictionary its
  keys; any other value raises \<^verbatim>\<open>TypeError\<close>.
\<close>

fun py_iter :: "pyval \<Rightarrow> py_error + pyval list" where
  "py_iter (PList xs) = Inr xs"
| "py_iter (PStr s) = Inr (map PStr (utf8_chars s))"
| "py_iter (PDict d) = Inr (map (\<lambda>kv. PStr (fst kv)) d)"
| "py_iter v = Inl TypeError"

text \<open>\<^verbatim>\<open>f"{v}"\<close>: a string is itself, any other value is formatted by \<^verbatim>\<open>str\<close>.\<close>

definition py_str :: "runtime \<Rightarrow> pyval \<Rightarrow> string" where
  "py_str rt v = (case v of PStr s \<Rightarrow> s | _ \<Rightarrow> str_of rt v)"

text \<open>\<^verbatim>\<open>_uid(prefix)\<close> for a prefix that is any value.\<close>

definition uid_of :: "runtime \<Rightarrow> pyval \<Rightarrow> string \<Rightarrow> string" where
  "uid_of rt prefix short = (if truthy prefix then py_str rt prefix @ ''-'' @ short else short)"

text \<open>
  \<^verbatim>\<open>generate_mock_media(media_type, topic_label)\<close> for a media type that is any value:
  the lookup \<^verbatim>\<open>templates.get(media_type, ...)\<close> hashes it, so a list or a dictionary
  raises \<^verbatim>\<open>TypeError\<close>; a value that is no key takes the template of "unsplash".
\<close>

definition mock_media_for :: "env \<Rightarrow> pyval \<Rightarrow> string \<Rightarrow> py_error + pyval" where
  "mock_media_for e media_type topic_label =
     (case media_type of
        PStr s \<Rightarrow> Inr (generate_mock_media e s topic_label)
      | PList xs \<Rightarrow> Inl TypeError
      | PDict d \<Rightarrow> Inl TypeError
      | _ \<Rightarrow> Inr (unsplash_media (slugify e topic_label) topic_label))"

text \<open>The key in \<^verbatim>\<open>api_clients\<close> of the provider that serves a media type.\<close>

definition api_for :: "pyval \<Rightarrow> string option" where
  "api_for media_type =
     (if media_type = PStr ''unsplash'' then Some ''unsplash''
      else if media_type = PStr ''wikipedia_image'' then Some ''wikipedia''
      else if media_type = PStr ''wikimedia'' then Some ''wikimedia''
      else if media_type = PStr ''reddit'' then Some ''reddit''
      else if media_type = PStr ''xkcd'' then Some ''xkcd''
      else if media_type = PStr ''meme'' then Some ''imgflip''
      else if media_type = PStr ''tweet'' then Some ''twitter''
      else None)"

text \<open>
  \<^verbatim>\<open>_resolve_media(media_request, topic_label, api_clients)\<close>: the answer of the
  provider, or the mock media when there is none.
\<close>

definition resolve_media :: "env \<Rightarrow> clients \<Rightarrow> pyval \<Rightarrow> string \<Rightarrow> py_error + pyval" where
  "resolve_media e c media_request topic_label =
     (case media_request of
        PDict m \<Rightarrow>
          if \<not> truthy media_request then Inr PNone
          else (let media_type = dget m ''type'' (PStr ''unsplash'');
                    result = (case api_for media_type of
                                None \<Rightarrow> PNone
                              | Some api \<Rightarrow> provider c api media_request topic_label)
                in if result = PNone then mock_media_for e media_type topic_label
                   else Inr result)
      | _ \<Rightarrow> Inr PNone)"

text \<open>
  The loop \<^verbatim>\<open>for group_data in groups\<close> of \<^verbatim>\<open>generate_content_blocks_live\<close>; \<open>n\<close>
  counts the identifiers drawn so far.  A group draws one for itself, one for its text
  block if it has a text, one for its media block if it has a media request.
\<close>

fun live_groups ::
  "env \<Rightarrow> rnd \<Rightarrow> clients \<Rightarrow> string \<Rightarrow> nat \<Rightarrow> pyval list \<Rightarrow> py_error + pyval list" where
  "live_groups e r c topic_label n [] = Inr []"
| "live_groups e r c topic_label n (group_data # rest) =
     (case group_data of
        PDict g \<Rightarrow>
          (let group_id = uid ''grp'' (uuid8 r n);
               text_val = dget g ''text'' PNone;
               text_blocks =
                 (if truthy text_val
                  then [PDict [(''id'', PStr (uid ''text'' (uuid8 r (n + 1)))),
                               (''type'', PStr ''text''), (''content'', text_val),
                               (''group_id'', PStr group_id),
                               (''group_role'', dget g ''group_role_text'' (PStr ''explanation''))]]
                  else []);
               n1 = (if truthy text_val then n + 2 else n + 1);
               media_request = dget g ''media_request'' PNone
           in if truthy media_request then
                (case py_get media_request ''type'' (PStr ''unsplash'') of
                   Inl err \<Rightarrow> Inl err
                 | Inr media_type \<Rightarrow>
                     (case resolve_media e c media_request topic_label of
                        Inl err \<Rightarrow> Inl err
                      | Inr media_data \<Rightarrow>
                          (let media_block =
                                 PDict [(''id'', PStr (uid_of (runtime_of e) media_type
                                                        (uuid8 r n1))),
                                        (''type'', media_type),
                                        (''content'',
                                           PStr (topic_label @ '' '' @ em_dash @ '' ''
                                                 @ py_str (runtime_of e) media_type
                                                 @ '' content'')),
                                        (''group_id'', PStr group_id),
                                        (''group_role'', dget g ''group_role_media'' (PStr ''visual'')),
                                        (''media'', media_data)]
                           in case live_groups e r c topic_label (n1 + 1) rest of
                                Inl err \<Rightarrow> Inl err
                              | Inr blocks \<Rightarrow> Inr (text_blocks @ media_block # blocks))))
              else (case live_groups e r c topic_label n1 rest of
                      Inl err \<Rightarrow> Inl err
                    | Inr blocks \<Rightarrow> Inr (text_blocks @ blocks)))
      | _ \<Rightarrow> Inl AttributeError)"

text \<open>A suggestion of the live path: \<^verbatim>\<open>{"id": node["id"], "label": node["label"]}\<close>.\<close>

definition live_node_dict :: "node \<Rightarrow> pyval" where
  "live_node_dict n = PDict [(''id'', PStr (node_id n)), (''label'', PStr (node_label n))]"

text \<open>
  Modelled from the spec: \<^verbatim>\<open>get_node\<close> of a value that is not a string finds nothing.
\<close>

definition get_node_of :: "env \<Rightarrow> pyval \<Rightarrow> node option" where
  "get_node_of e nid = (case nid of PStr s \<Rightarrow> get_node e s | _ \<Rightarrow> None)"

text \<open>
  The loop \<^verbatim>\<open>for nid in claude_next\<close>: the test \<^verbatim>\<open>nid not in visited_set\<close> hashes the
  identifier and raises \<^verbatim>\<open>TypeError\<close> for a list or a dictionary.
\<close>

fun live_next_loop :: "env \<Rightarrow> string set \<Rightarrow> pyval list \<Rightarrow> py_error + pyval list" where
  "live_next_loop e visited_set [] = Inr []"
| "live_next_loop e visited_set (nid # rest) =
     (case in_str_set nid visited_set of
        Inl err \<Rightarrow> Inl err
      | Inr seen \<Rightarrow>
          (case live_next_loop e visited_set rest of
             Inl err \<Rightarrow> Inl err
           | Inr next_nodes \<Rightarrow>
               if seen then Inr next_nodes
               else (case get_node_of e nid of
                       None \<Rightarrow> Inr next_nodes
                     | Some n \<Rightarrow> Inr (live_node_dict n # next_nodes))))"

text \<open>
  The fallback of the live path: \<^verbatim>\<open>if main_topic:\<close> asks for a main topic that is
  neither none nor the empty string; \<^verbatim>\<open>fallback_nodes[:3]\<close> are the first three.
\<close>

definition live_fallback_nodes :: "env \<Rightarrow> string \<Rightarrow> string \<Rightarrow> string set \<Rightarrow> pyval list" where
  "live_fallback_nodes e topic_id strategy visited_set =
     (case owning_topic e topic_id of
        None \<Rightarrow> []
      | Some main_topic \<Rightarrow>
          if main_topic \<noteq> []
          then map live_node_dict (take 3 (get_subtopic_nodes e main_topic strategy visited_set))
          else [])"

definition live_request ::
  "env \<Rightarrow> string \<Rightarrow> string \<Rightarrow> string list \<Rightarrow> pyval \<Rightarrow> pyval \<Rightarrow> request" where
  "live_request e topic_id strategy visited_nodes last_paragraph engagement_score =
     \<lparr>req_topic_label = label_of e topic_id, req_strategy = strategy,
      req_visited = visited_nodes, req_last_paragraph = last_paragraph,
      req_engagement_score = engagement_score\<rparr>"

definition generate_content_blocks_live ::
  "env \<Rightarrow> rnd \<Rightarrow> clients \<Rightarrow> string \<Rightarrow> string \<Rightarrow> string list \<Rightarrow> pyval \<Rightarrow> pyval
     \<Rightarrow> py_error + (pyval list \<times> pyval list)" where
  "generate_content_blocks_live e r c topic_id strategy visited_nodes last_paragraph
       engagement_score =
     (let topic_label = label_of e topic_id
      in case generate_content_with_claude c
                (live_request e topic_id strategy visited_nodes last_paragraph engagement_score) of
           None \<Rightarrow> generate_content_blocks e r topic_id strategy visited_nodes 4
         | Some claude_plan \<Rightarrow>
     (case py_get claude_plan ''groups'' (PList []) of
        Inl err \<Rightarrow> Inl err
      | Inr groups \<Rightarrow>
     (case py_iter groups of
        Inl err \<Rightarrow> Inl err
      | Inr group_list \<Rightarrow>
     (case live_groups e r c topic_label 0 group_list of
        Inl err \<Rightarrow> Inl err
      | Inr blocks \<Rightarrow>
     (case py_get claude_plan ''next_nodes'' (PList []) of
        Inl err \<Rightarrow> Inl err
      | Inr claude_next \<Rightarrow>
     (case py_iter claude_next of
        Inl err \<Rightarrow> Inl err
      | Inr ids \<Rightarrow>
     (case live_next_loop e (set visited_nodes) ids of
        Inl err \<Rightarrow> Inl err
      | Inr next_nodes \<Rightarrow>
          if next_nodes \<noteq> [] then Inr (blocks, next_nodes)
          else Inr (blocks, live_fallback_nodes e topic_id strategy (set visited_nodes)))))))))"

text \<open>
  The failure of the orchestrator in the words of the specification: the client is
  unavailable, or its result is not a dictionary that has the key \<^verbatim>\<open>groups\<close>.
\<close>

definition orchestrator_failed :: "clients \<Rightarrow> request \<Rightarrow> bool" where
  "orchestrator_failed c req =
     (case claude c of
        None \<Rightarrow> True
      | Some claude_client \<Rightarrow>
          \<not> is_available claude_client
          \<or> (case generate_json claude_client req of
                PDict d \<Rightarrow> map_of d ''groups'' = None
              | _ \<Rightarrow> True))"



section \<open>A small graph and two sequences of draws\<close>

text \<open>
  One main topic with four deeper subtopics, one branch and one pivot, no paragraph
  pool of its own; a slug function that lowers letters and joins words with dashes.
\<close>

definition demo_slugify :: "string \<Rightarrow> string" where
  "demo_slugify s = map (\<lambda>c. if c = CHR '' '' then CHR ''-'' else to_lower c) s"

definition demo_env :: env where
  "demo_env =
     \<lparr>NODES = [(''black-holes'', ''Black Holes'', ''Regions of no return''),
               (''event-horizon'', ''Event Horizon'', ''The boundary''),
               (''hawking-radiation'', ''Hawking Radiation'', ''Black holes glow''),
               (''singularity'', ''Singularity'', ''The centre''),
               (''accretion-disk'', ''Accretion Disk'', ''Infalling matter''),
               (''neutron-stars'', ''Neutron Stars'', ''Collapsed cores''),
               (''quantum-gravity'', ''Quantum Gravity'', ''Gravity and quanta'')],
      TOPIC_GRAPH = [(''black-holes'',
                       [(''deeper'', [''event-horizon'', ''hawking-radiation'', ''singularity'',
                                      ''accretion-disk'']),
                        (''branch'', [''neutron-stars'']),
                        (''pivot'', [''quantum-gravity''])])],
      TOPIC_POOLS = [],
      slugify = demo_slugify,
      runtime_of = \<lparr>int_of_str = (\<lambda>s. None), str_of = (\<lambda>v. ''?'')\<rparr>\<rparr>"

text \<open>Draws with pairwise different identifiers for the first sixteen.\<close>

definition hex8 :: "nat \<Rightarrow> string" where
  "hex8 k = ''0000000'' @ [''0123456789abcdef'' ! (k mod 16)]"

definition demo_rnd :: rnd where
  "demo_rnd = \<lparr>uuid8 = hex8, shuffled = (\<lambda>i. MEDIA_TYPES), choice = (\<lambda>i. i),
                sample_pick = (\<lambda>j. 3 - j)\<rparr>"



text \<open>
  An orchestrator that is down, one that answers without the key \<^verbatim>\<open>groups\<close>, and one
  that answers with a plan of one text group whose only proposal is a visited node.
\<close>

definition down_clients :: clients where
  "down_clients = \<lparr>claude = Some \<lparr>is_available = False, generate_json = (\<lambda>req. PNone)\<rparr>,
                    provider = (\<lambda>api media_request topic_label. PNone)\<rparr>"

definition broken_clients :: clients where
  "broken_clients =
     \<lparr>claude = Some \<lparr>is_available = True,
                      generate_json = (\<lambda>req. PDict [(''error'', PStr ''overloaded'')])\<rparr>,
      provider = (\<lambda>api media_request topic_label. PNone)\<rparr>"



section \<open>Properties\<close>

subsection \<open>Strategy selection\<close>

lemma double_065: "fl (65 / 100) = Fin (5854679515581645 / 9007199254740992)"
  by code_simp

lemma double_035: "fl (35 / 100) = Fin (3152519739159347 / 9007199254740992)"
  by code_simp

lemma double_0649999: "fl (649999 / 1000000) = Fin (2927335254191195 / 4503599627370496)"
  by code_simp

lemma double_0349999: "fl (349999 / 1000000) = Fin (6305021463920185 / 18014398509481984)"
  by code_simp

text \<open>
  Claim C2.  For every score the selector answers "deeper" exactly when the score is at
  least 0.65, "branch" exactly when it is at least 0.35 and below 0.65, and "pivot"
  exactly when it is below 0.35, where the comparisons are those of floats and 0.65 and
  0.35 are the doubles of these literals.  The lower bound of each band is inclusive:
  the double 0.65 itself gives "deeper" and the double 0.35 itself gives "branch", while
  0.649999 gives "branch" and 0.349999 gives "pivot".  The function is a total function
  of its argument alone and has no other answers; the one float that is not a number
  compares false with both thresholds and gives "pivot".
\<close>

theorem select_strategy_bands:
  "(select_strategy x = ''deeper'' \<longleftrightarrow> fge x (fl (65 / 100)))
   \<and> (select_strategy x = ''branch'' \<longleftrightarrow> (fge x (fl (35 / 100)) \<and> flt x (fl (65 / 100))))
   \<and> (select_strategy x = ''pivot'' \<longleftrightarrow> (flt x (fl (35 / 100)) \<or> x = NaN))
   \<and> (select_strategy (Fin s) = ''deeper''
        \<longleftrightarrow> s \<ge> 5854679515581645 / 9007199254740992)
   \<and> (select_strategy (Fin s) = ''branch''
        \<longleftrightarrow> (3152519739159347 / 9007199254740992 \<le> s
             \<and> s < 5854679515581645 / 9007199254740992))
   \<and> (select_strategy (Fin s) = ''pivot''
        \<longleftrightarrow> s < 3152519739159347 / 9007199254740992)
   \<and> select_strategy (fl (65 / 100)) = ''deeper''
   \<and> select_strategy (fl (35 / 100)) = ''branch''
   \<and> select_strategy (fl (649999 / 1000000)) = ''branch''
   \<and> select_strategy (fl (349999 / 1000000)) = ''pivot''
   \<and> select_strategy PInf = ''deeper''
   \<and> select_strategy NInf = ''pivot''
   \<and> select_strategy x \<in> {''deeper'', ''branch'', ''pivot''}"
proof -
  have general: "(select_strategy x = ''deeper'' \<longleftrightarrow> fge x (fl (65 / 100)))
      \<and> (select_strategy x = ''branch'' \<longleftrightarrow> (fge x (fl (35 / 100)) \<and> flt x (fl (65 / 100))))
      \<and> (select_strategy x = ''pivot'' \<longleftrightarrow> (flt x (fl (35 / 100)) \<or> x = NaN))
      \<and> select_strategy x \<in> {''deeper'', ''branch'', ''pivot''}"
    unfolding select_strategy_def double_065 double_035
    by (cases x) auto
  have finite: "(select_strategy (Fin s) = ''deeper''
        \<longleftrightarrow> s \<ge> 5854679515581645 / 9007199254740992)
      \<and> (select_strategy (Fin s) = ''branch''
        \<longleftrightarrow> (3152519739159347 / 9007199254740992 \<le> s
             \<and> s < 5854679515581645 / 9007199254740992))
      \<and> (select_strategy (Fin s) = ''pivot''
        \<longleftrightarrow> s < 3152519739159347 / 9007199254740992)"
    unfolding select_strategy_def double_065 double_035 by auto
  have points: "select_strategy (fl (65 / 100)) = ''deeper''
      \<and> select_strategy (fl (35 / 100)) = ''branch''
      \<and> select_strategy (fl (649999 / 1000000)) = ''branch''
      \<and> select_strategy (fl (349999 / 1000000)) = ''pivot''
      \<and> select_strategy PInf = ''deeper''
      \<and> select_strategy NInf = ''pivot''"
    unfolding select_strategy_def double_065 double_035 double_0649999 double_0349999
    by simp
  from general finite points show ?thesis by blast
qed

subsection \<open>Block validation and falsy roles\<close>

lemma role_errors_falsy:
  "map_of d ''group_role'' = Some r \<Longrightarrow> \<not> truthy r \<Longrightarrow> role_errors d valid mk = Inr []"
  by (simp add: role_errors_def)

lemma missing_keys_present:
  "map_of d k \<noteq> None \<Longrightarrow> MissingKey k \<notin> set (missing_keys req d)"
  by (auto simp: missing_keys_def)

lemma missing_keys_only: "e \<in> set (missing_keys req d) \<Longrightarrow> \<exists>k. e = MissingKey k"
  by (auto simp: missing_keys_def)

lemma media_errors_only:
  "e \<in> set (media_errors d) \<Longrightarrow> e \<in> {MissingMedia, MediaNotDict, MissingUrl, MissingSource}"
  by (auto simp: media_errors_def split: option.splits pyval.splits if_splits)

text \<open>
  Claim C10.  Take any block dictionary whose \<^verbatim>\<open>group_role\<close> key is present with a falsy
  value (the empty string, \<^verbatim>\<open>None\<close>, zero, an empty list).  Whatever its type, text or
  any media kind included, block validation returns a list that holds no invalid-role
  message, neither the text one nor the media one, and no missing-key message for
  \<^verbatim>\<open>group_role\<close>: the vocabulary test is skipped for a falsy role.  The witness is a
  complete text block with role \<^verbatim>\<open>""\<close>, which is in neither vocabulary and validates
  with no message at all.
\<close>

theorem falsy_group_role_skips_role_check:
  assumes "map_of d ''group_role'' = Some r" and "\<not> truthy r"
  shows "\<exists>errs. validate_content_block (PDict d) = Inr errs
           \<and> MissingKey ''group_role'' \<notin> set errs
           \<and> (\<forall>v. InvalidTextRole v \<notin> set errs \<and> InvalidMediaRole v \<notin> set errs)"
proof -
  let ?miss = "missing_keys [''id'', ''type'', ''content'', ''group_id'', ''group_role''] d"
  have m1: "MissingKey ''group_role'' \<notin> set ?miss"
    using assms(1) by (intro missing_keys_present) simp
  have m2: "\<And>v. InvalidTextRole v \<notin> set ?miss \<and> InvalidMediaRole v \<notin> set ?miss"
    using missing_keys_only by blast
  have m3: "\<And>v. InvalidTextRole v \<notin> set (media_errors d)
       \<and> InvalidMediaRole v \<notin> set (media_errors d)
       \<and> MissingKey ''group_role'' \<notin> set (media_errors d)"
    using media_errors_only by blast
  show ?thesis
    using m1 m2 m3
    by (simp add: validate_content_block_def role_errors_falsy [OF assms] Let_def
        split: option.splits)
qed

theorem falsy_group_role_witness:
  "validate_content_block (PDict [(''id'', PStr ''text-1''), (''type'', PStr ''text''),
       (''content'', PStr ''Hello''), (''group_id'', PStr ''grp-1''),
       (''group_role'', PStr '''')]) = Inr []
   \<and> '''' \<notin> VALID_GROUP_ROLES_TEXT \<union> VALID_GROUP_ROLES_MEDIA"
  using falsy_group_role_skips_role_check [of "[(''id'', PStr ''text-1''),
       (''type'', PStr ''text''), (''content'', PStr ''Hello''), (''group_id'', PStr ''grp-1''),
       (''group_role'', PStr '''')]" "PStr ''''"]
  by (simp add: validate_content_block_def role_errors_def missing_keys_def
      VALID_GROUP_ROLES_TEXT_def VALID_GROUP_ROLES_MEDIA_def)

subsection \<open>Validators on unhashable values\<close>

text \<open>
  Claim C9.  The claim is that both response validators return a list for every input
  value.  The source guards the score and the two lists with \<^verbatim>\<open>isinstance\<close> before it
  uses them, but tests \<^verbatim>\<open>group_role\<close> and \<^verbatim>\<open>strategy_used\<close> for membership in a set with
  no guard.  A text block whose role is the list \<^verbatim>\<open>["explanation"]\<close> (the live path copies
  the role from the orchestrator's plan unchecked) makes both validators raise
  \<^verbatim>\<open>TypeError\<close>, and so does a response whose strategy is a list.
\<close>

theorem validators_raise_on_unhashable:
  "validate_response (PDict [(''content_blocks'', PList [PDict [(''id'', PStr ''text-1''),
        (''type'', PStr ''text''), (''content'', PStr ''Hello''), (''group_id'', PStr ''grp-1''),
        (''group_role'', PList [PStr ''explanation''])]]),
      (''next_nodes'', PList []), (''strategy_used'', PStr ''deeper''),
      (''engagement_score'', PFloat (Fin (7 / 10)))]) = Inl TypeError
   \<and> validate_initial_response (PDict [(''content_blocks'', PList [PDict [(''id'', PStr ''text-1''),
        (''type'', PStr ''text''), (''content'', PStr ''Hello''), (''group_id'', PStr ''grp-1''),
        (''group_role'', PList [PStr ''explanation''])]]),
      (''graph'', PDict [(''nodes'', PList [PStr ''n'']), (''edges'', PList [])]),
      (''next_nodes'', PList []), (''strategy_used'', PStr ''deeper'')]) = Inl TypeError
   \<and> validate_response (PDict [(''content_blocks'', PList []), (''next_nodes'', PList []),
      (''strategy_used'', PList []), (''engagement_score'', PFloat (Fin (1 / 2)))])
     = Inl TypeError"
  by (simp add: validate_response_def validate_initial_response_def validate_content_block_def
      role_errors_def missing_keys_def blocks_errors_def)

subsection \<open>The variety tracker\<close>

lemma avoid_repeat_stop:
  "Some m \<noteq> lst \<Longrightarrow> avoid_repeat tys lst q m a = (m, q)"
  by (subst avoid_repeat.simps) simp

lemma avoid_repeat_limit:
  "\<not> attempts < length tys \<Longrightarrow> avoid_repeat tys lst q m attempts = (m, q)"
  by (subst avoid_repeat.simps) simp

lemma avoid_repeat_step:
  "Some m = lst \<Longrightarrow> Suc 0 < length tys \<Longrightarrow> attempts < length tys \<Longrightarrow>
   avoid_repeat tys lst q m attempts
     = avoid_repeat tys lst (tl (q @ [m])) (hd (q @ [m])) (Suc attempts)"
  by (subst avoid_repeat.simps) simp

lemmas avoid_repeat_eval = avoid_repeat_stop avoid_repeat_limit avoid_repeat_step

lemma avoid_repeat_set:
  "avoid_repeat tys lst q m a = (m', q') \<Longrightarrow> set (m' # q') = set (m # q)"
proof (induction tys lst q m a rule: avoid_repeat.induct)
  case (1 tys lst q media_type attempts)
  show ?case
  proof (cases "Some media_type = lst \<and> length tys > 1 \<and> attempts < length tys")
    case True
    then have "avoid_repeat tys lst (tl (q @ [media_type])) (hd (q @ [media_type]))
        (Suc attempts) = (m', q')"
      using "1.prems" by (subst (asm) avoid_repeat.simps) simp
    from "1.IH" [OF True this]
    have "set (m' # q') = set (hd (q @ [media_type]) # tl (q @ [media_type]))" .
    also have "\<dots> = set (q @ [media_type])" by simp
    finally show ?thesis by auto
  next
    case False
    then show ?thesis
      using "1.prems" by (subst (asm) avoid_repeat.simps) auto
  qed
qed

lemma next_type_member:
  assumes "tys \<noteq> []" and "mset sh = mset tys" and "tracker_ok tys tr"
  shows "\<exists>m tr'. next_type sh tr = Inr (m, tr') \<and> m \<in> set tys \<and> tracker_ok tys tr'"
proof -
  let ?q0 = "if t_queue tr = [] then sh else t_queue tr"
  have sh: "set sh = set tys" "sh \<noteq> []"
    using assms(1,2) by (metis set_mset_mset, metis mset_zero_iff)
  then have q0: "?q0 \<noteq> []" "set ?q0 \<subseteq> set tys"
    using assms(3) by (auto simp: tracker_ok_def)
  then obtain x q1 where x: "?q0 = x # q1" by (cases ?q0) auto
  obtain m q2 where a: "avoid_repeat (t_types tr) (t_last tr) q1 x 0 = (m, q2)"
    by (cases "avoid_repeat (t_types tr) (t_last tr) q1 x 0")
  from avoid_repeat_set [OF a] have "set (m # q2) = set ?q0" using x by simp
  with q0 have "m \<in> set tys" "set q2 \<subseteq> set tys" by auto
  moreover have "next_type sh tr = Inr (m, tr\<lparr>t_queue := q2, t_last := Some m\<rparr>)"
    using x a by (simp add: next_type_def Let_def)
  ultimately show ?thesis using assms(3) by (simp add: tracker_ok_def)
qed

lemma next_types_member:
  assumes "tys \<noteq> []" and "\<forall>sh\<in>set shs. mset sh = mset tys" and "tracker_ok tys tr"
  shows "\<exists>ms tr'. next_types tr shs = Inr (ms, tr') \<and> length ms = length shs
           \<and> set ms \<subseteq> set tys \<and> tracker_ok tys tr'"
  using assms(2,3)
proof (induction shs arbitrary: tr)
  case Nil
  then show ?case by simp
next
  case (Cons sh shs)
  from next_type_member [OF assms(1) _ Cons.prems(2), of sh] Cons.prems(1)
  obtain m tr1 where s: "next_type sh tr = Inr (m, tr1)" "m \<in> set tys" "tracker_ok tys tr1"
    by auto
  from Cons.IH [OF _ s(3)] Cons.prems(1)
  obtain ms tr2 where r: "next_types tr1 shs = Inr (ms, tr2)" "length ms = length shs"
    "set ms \<subseteq> set tys" "tracker_ok tys tr2" by auto
  show ?case using s r by simp
qed

lemma next_type_fresh:
  assumes "distinct tys" and "2 \<le> length tys" and "mset sh = mset tys"
    and "tracker_fresh tys tr"
  shows "\<exists>m tr'. next_type sh tr = Inr (m, tr') \<and> Some m \<noteq> t_last tr
           \<and> t_last tr' = Some m \<and> tracker_fresh tys tr'"
proof (cases "t_queue tr = []")
  case True
  have ty: "t_types tr = tys" using assms(4) by (simp add: tracker_fresh_def)
  have dsh: "distinct sh" using assms(1,3) by (metis mset_eq_imp_distinct_iff)
  have "length sh = length tys" using assms(3) by (metis size_mset)
  with assms(2) have "2 \<le> length sh" by simp
  then obtain a b rest where sh: "sh = a # b # rest"
    by (metis Suc_le_length_iff numeral_2_eq_2)
  have ab: "a \<noteq> b" and da: "a \<notin> set rest" and db: "b \<notin> set rest" and dr: "distinct rest"
    using dsh sh by auto
  show ?thesis
  proof (cases "t_last tr = Some a")
    case False
    then have na: "Some a \<noteq> t_last tr" by auto
    have "next_type sh tr = Inr (a, tr\<lparr>t_queue := b # rest, t_last := Some a\<rparr>)"
      using True sh by (simp add: next_type_def avoid_repeat_stop [OF na])
    moreover have "tracker_fresh tys (tr\<lparr>t_queue := b # rest, t_last := Some a\<rparr>)"
      using ty ab da db dr by (simp add: tracker_fresh_def)
    ultimately show ?thesis using na by simp
  next
    case same: True
    have nb: "Some b \<noteq> t_last tr" using ab same by simp
    have len: "Suc 0 < length tys" "tys \<noteq> []" using assms(2) by auto
    have "avoid_repeat tys (t_last tr) (b # rest) a 0
        = avoid_repeat tys (t_last tr) (rest @ [a]) b (Suc 0)"
      by (subst avoid_repeat.simps) (simp add: same len)
    also have "\<dots> = (b, rest @ [a])"
      by (rule avoid_repeat_stop [OF nb])
    finally have "next_type sh tr = Inr (b, tr\<lparr>t_queue := rest @ [a], t_last := Some b\<rparr>)"
      using True sh ty by (simp add: next_type_def)
    moreover have "tracker_fresh tys (tr\<lparr>t_queue := rest @ [a], t_last := Some b\<rparr>)"
      using ty ab da db dr by (simp add: tracker_fresh_def)
    ultimately show ?thesis using nb by simp
  qed
next
  case False
  then obtain x q1 where q: "t_queue tr = x # q1" by (cases "t_queue tr") auto
  have ty: "t_types tr = tys" and dq: "distinct (x # q1)"
    using assms(4) q by (simp_all add: tracker_fresh_def)
  have nl: "Some x \<noteq> t_last tr"
    using assms(4) q unfolding tracker_fresh_def by (metis list.set_intros(1))
  have "next_type sh tr = Inr (x, tr\<lparr>t_queue := q1, t_last := Some x\<rparr>)"
    using q by (simp add: next_type_def avoid_repeat_stop [OF nl])
  moreover have "tracker_fresh tys (tr\<lparr>t_queue := q1, t_last := Some x\<rparr>)"
    using ty dq by (simp add: tracker_fresh_def)
  ultimately show ?thesis using nl by simp
qed

lemma next_types_fresh:
  assumes "distinct tys" and "2 \<le> length tys" and "\<forall>sh\<in>set shs. mset sh = mset tys"
    and "tracker_fresh tys tr"
  shows "\<exists>ms tr'. next_types tr shs = Inr (ms, tr') \<and> length ms = length shs
           \<and> (ms \<noteq> [] \<longrightarrow> Some (hd ms) \<noteq> t_last tr) \<and> distinct_adj ms"
  using assms(3,4)
proof (induction shs arbitrary: tr)
  case Nil
  then show ?case by simp
next
  case (Cons sh shs)
  have p: "mset sh = mset tys" and ps: "\<forall>sh\<in>set shs. mset sh = mset tys"
    using Cons.prems(1) by simp_all
  from next_type_fresh [OF assms(1,2) p Cons.prems(2)]
  obtain m tr1 where s: "next_type sh tr = Inr (m, tr1)" "Some m \<noteq> t_last tr"
    "t_last tr1 = Some m" "tracker_fresh tys tr1" by blast
  from Cons.IH [OF ps s(4)]
  obtain ms tr2 where r: "next_types tr1 shs = Inr (ms, tr2)" "length ms = length shs"
    "ms \<noteq> [] \<longrightarrow> Some (hd ms) \<noteq> t_last tr1" "distinct_adj ms" by blast
  have "distinct_adj (m # ms)"
    using r(3,4) s(3) by (auto simp: distinct_adj_Cons)
  then show ?case using s(1,2) r(1,2) by simp
qed

lemma new_tracker_fresh:
  "tys \<noteq> [] \<Longrightarrow> distinct tys \<Longrightarrow> tracker_fresh tys (new_tracker (Some tys))"
  by (simp add: new_tracker_def tracker_fresh_def)

lemma new_tracker_ok: "tys \<noteq> [] \<Longrightarrow> tracker_ok tys (new_tracker (Some tys))"
  by (simp add: new_tracker_def tracker_ok_def)

text \<open>
  Claim C3.  As stated, the claim covers every tracker whose kinds include two different
  ones.  The constructor keeps the list it is given, and the loop counts list entries,
  not different kinds: a tracker built from \<^verbatim>\<open>["a", "a", "b"]\<close> emits
  \<^verbatim>\<open>a, b, a, b, a, a\<close> in six calls, whatever the reshuffle at the fourth call gives
  (here \<^verbatim>\<open>["b", "a", "a"]\<close>), so two consecutive kinds are equal.
\<close>

theorem tracker_repeat_counterexample:
  "next_types (new_tracker (Some [''a'', ''a'', ''b'']))
       [[''b'', ''a'', ''a''], [''b'', ''a'', ''a''], [''b'', ''a'', ''a''],
        [''b'', ''a'', ''a''], [''b'', ''a'', ''a''], [''b'', ''a'', ''a'']]
     = Inr ([''a'', ''b'', ''a'', ''b'', ''a'', ''a''],
            \<lparr>t_types = [''a'', ''a'', ''b''], t_queue = [], t_last = Some ''a''\<rparr>)"
  by (simp add: next_type_def new_tracker_def Let_def avoid_repeat_eval)

text \<open>
  Claim C3, amended.  Let the tracker be configured with a list of kinds and let every
  reshuffle return a permutation of that list.  If the list has at least two entries and
  names no kind twice, then any number of calls to \<^verbatim>\<open>next_type\<close> return (none fails),
  and no two consecutive results are equal.  If the list holds one kind only, however
  often, every call returns that kind: the loop that avoids repeats stops after at most
  as many rounds as the list has entries.
\<close>

theorem tracker_no_consecutive_repeat:
  assumes "\<forall>sh\<in>set shs. mset sh = mset tys"
  shows "(distinct tys \<and> 2 \<le> length tys \<longrightarrow>
            (\<exists>outs tr'. next_types (new_tracker (Some tys)) shs = Inr (outs, tr')
               \<and> length outs = length shs
               \<and> (\<forall>i. Suc i < length outs \<longrightarrow> outs ! i \<noteq> outs ! Suc i)))
       \<and> (set tys = {k} \<longrightarrow>
            (\<exists>tr'. next_types (new_tracker (Some tys)) shs
               = Inr (replicate (length shs) k, tr')))"
proof (intro conjI impI)
  assume d: "distinct tys \<and> 2 \<le> length tys"
  then have ne: "tys \<noteq> []" by (cases tys) simp_all
  from next_types_fresh [OF _ _ assms new_tracker_fresh [OF ne]] d
  obtain ms tr' where r: "next_types (new_tracker (Some tys)) shs = Inr (ms, tr')"
    "length ms = length shs" "distinct_adj ms" by blast
  from r(3) have n: "\<forall>i. Suc i < length ms \<longrightarrow> ms ! i \<noteq> ms ! Suc i"
    by (simp only: distinct_adj_conv_nth)
  show "\<exists>outs tr'. next_types (new_tracker (Some tys)) shs = Inr (outs, tr')
      \<and> length outs = length shs \<and> (\<forall>i. Suc i < length outs \<longrightarrow> outs ! i \<noteq> outs ! Suc i)"
    using r(1,2) n by blast
next
  assume k: "set tys = {k}"
  then have ne: "tys \<noteq> []" by (cases tys) simp_all
  from next_types_member [OF ne assms new_tracker_ok [OF ne]]
  obtain ms tr' where r: "next_types (new_tracker (Some tys)) shs = Inr (ms, tr')"
    "length ms = length shs" "set ms \<subseteq> set tys" by blast
  have "\<forall>y\<in>set ms. y = k" using r(3) k by blast
  then have "replicate (length ms) k = ms" by (rule replicate_length_same)
  then have "ms = replicate (length shs) k" using r(2) by simp
  then show "\<exists>tr'. next_types (new_tracker (Some tys)) shs
      = Inr (replicate (length shs) k, tr')"
    using r(1) by blast
qed

theorem tracker_no_consecutive_repeat_witness:
  "(\<exists>outs tr'. next_types (new_tracker (Some [''xkcd'', ''meme'']))
        [[''xkcd'', ''meme''], [''xkcd'', ''meme''], [''meme'', ''xkcd''], [''meme'', ''xkcd'']]
        = Inr (outs, tr')
      \<and> length outs = 4 \<and> (\<forall>i. Suc i < length outs \<longrightarrow> outs ! i \<noteq> outs ! Suc i))
   \<and> (\<exists>tr'. next_types (new_tracker (Some [''only'']))
        [[''only''], [''only''], [''only'']] = Inr ([''only'', ''only'', ''only''], tr'))"
  using tracker_no_consecutive_repeat [of
      "[[''xkcd'', ''meme''], [''xkcd'', ''meme''], [''meme'', ''xkcd''], [''meme'', ''xkcd'']]"
      "[''xkcd'', ''meme'']" "''''"]
    tracker_no_consecutive_repeat [of "[[''only''], [''only''], [''only'']]" "[''only'']"
      "''only''"]
  by (simp add: numeral_eq_Suc)

lemma tracker_two_kinds_example:
  "next_types (new_tracker (Some [''xkcd'', ''meme'']))
        [[''xkcd'', ''meme''], [''xkcd'', ''meme''], [''meme'', ''xkcd''], [''meme'', ''xkcd'']]
     = Inr ([''xkcd'', ''meme'', ''xkcd'', ''meme''],
            \<lparr>t_types = [''xkcd'', ''meme''], t_queue = [], t_last = Some ''meme''\<rparr>)"
  by (simp add: next_type_def new_tracker_def Let_def avoid_repeat_eval)

subsection \<open>Sanitization\<close>

lemma clean_number_nonneg: "clean_number rt default_val v = Inr n \<Longrightarrow> 0 \<le> n"
  by (auto simp: clean_number_def split: option.splits pyval.splits sum.splits
      py_error.splits)

lemma clean_number_returns:
  "v \<noteq> Some (PFloat PInf) \<Longrightarrow> v \<noteq> Some (PFloat NInf) \<Longrightarrow>
   \<exists>n. clean_number rt default_val v = Inr n"
proof (cases v)
  case None
  then show ?thesis by (simp add: clean_number_def)
next
  case (Some val)
  assume "v \<noteq> Some (PFloat PInf)" "v \<noteq> Some (PFloat NInf)"
  with Some have "val \<noteq> PFloat PInf" "val \<noteq> PFloat NInf" by simp_all
  then have "py_int rt val \<noteq> Inl OverflowError"
    by (cases "(rt, val)" rule: py_int.cases) (auto split: option.splits)
  moreover have "py_int rt val \<noteq> Inl AttributeError" "py_int rt val \<noteq> Inl IndexError"
    "py_int rt val \<noteq> Inl ZeroDivisionError"
    by (cases "(rt, val)" rule: py_int.cases; auto split: option.splits)+
  ultimately show ?thesis
    using Some
    by (cases "py_int rt val"; cases val)
      (auto simp: clean_number_def split: py_error.splits)
qed

lemma sanitize_time_data_clean:
  assumes "sanitize_time_data rt time_data = Inr td"
  shows "0 \<le> total_time_on_node_ms td \<and> 0 \<le> scroll_events td \<and> 0 \<le> go_deeper_clicks td
       \<and> 1 \<le> sections_in_current_node td \<and> 0 \<le> time_per_section_ms td"
proof (cases time_data)
  case (PDict d)
  with assms show ?thesis
    by (auto simp: sanitize_time_data_def split: sum.splits dest: clean_number_nonneg)
qed (use assms in \<open>auto simp: sanitize_time_data_def defaults_def\<close>)

lemma sanitize_time_data_not_dict:
  "\<forall>d. time_data \<noteq> PDict d \<Longrightarrow> sanitize_time_data rt time_data = Inr defaults"
  by (cases time_data) (simp_all add: sanitize_time_data_def)

text \<open>
  Claim C8.  The claim is that sanitization never raises.  The conversion \<^verbatim>\<open>int(val)\<close> is
  wrapped in \<^verbatim>\<open>except (ValueError, TypeError)\<close>, which lets the \<^verbatim>\<open>OverflowError\<close> of an
  infinite float through: the JSON body \<^verbatim>\<open>{"total_time_on_node_ms": 1e999}\<close> decodes to
  an infinity and the call raises instead of returning the default.  For every other
  input the lemmas above give the claimed result.
\<close>

theorem sanitize_time_data_raises_on_infinity:
  "sanitize_time_data rt (PDict [(''total_time_on_node_ms'', PFloat PInf)]) = Inl OverflowError"
  by (simp add: sanitize_time_data_def clean_number_def)

subsection \<open>Scoring\<close>

text \<open>
  Claim C1.  The claim is that the score is returned for every input.  A counter beyond
  the range of a double, such as a dwell time of \<open>10 ^ 400\<close> milliseconds (JSON integers
  are unbounded), passes sanitization unchanged, and the first division
  \<^verbatim>\<open>time_ms / 60000.0\<close> raises \<^verbatim>\<open>OverflowError\<close> where the docstring promises a time
  factor of one from 60 seconds on.
\<close>

theorem compute_engagement_score_raises_on_huge_counter:
  "compute_engagement_score rt (PDict [(''total_time_on_node_ms'', PInt (10 ^ 400))])
     = Inl OverflowError"
  by (simp add: compute_engagement_score_def sanitize_time_data_def clean_number_def
      float_of_int_def)

text \<open>
  The clamp \<^verbatim>\<open>max(0.0, min(1.0, score))\<close> keeps the first argument when the comparison
  with a NaN is false, so a score that is returned is a number.
\<close>

lemma fl_not_nan: "fl x \<noteq> NaN"
  by (simp add: fl_def Let_def)

lemma clamp_not_nan: "round4 (fmax (Fin 0) (fmin (Fin 1) s)) \<noteq> NaN"
proof -
  have a: "fmin (Fin 1) s \<noteq> NaN" by (cases s) (simp_all add: fmin_def)
  have b: "fmax (Fin 0) y \<noteq> NaN" if "y \<noteq> NaN" for y
    using that by (cases y) (simp_all add: fmax_def)
  have c: "round4 y \<noteq> NaN" if "y \<noteq> NaN" for y
    using that by (cases y) (simp_all add: fl_not_nan)
  show ?thesis by (intro c b a)
qed

lemma compute_engagement_score_not_nan:
  "compute_engagement_score rt time_data = Inr x \<Longrightarrow> x \<noteq> NaN"
  unfolding compute_engagement_score_def Let_def
  using clamp_not_nan
  by (auto split: sum.splits)

subsection \<open>Next-node suggestions of the mock path\<close>

lemma sample_by_length: "length (sample_by ps xs) = min (length ps) (length xs)"
proof (induction ps xs rule: sample_by.induct)
  case (1 xs)
  show ?case by simp
next
  case (2 p ps xs)
  show ?case
  proof (cases "xs = []")
    case True
    then show ?thesis by simp
  next
    case False
    define i where "i = p mod length xs"
    define rest where "rest = take i xs @ drop (Suc i) xs"
    have lt: "i < length xs" using False by (simp add: i_def)
    have len: "length rest = length xs - 1" using lt by (simp add: rest_def)
    have ih: "length (sample_by ps rest) = min (length ps) (length rest)"
      using "2.IH" [OF False] by (simp add: rest_def i_def)
    have "sample_by (p # ps) xs = xs ! i # sample_by ps rest"
      using False by (simp add: rest_def i_def)
    then have "length (sample_by (p # ps) xs) = Suc (min (length ps) (length xs - 1))"
      using ih len by simp
    also have "\<dots> = min (length (p # ps)) (length xs)"
      using lt by (cases "length ps \<le> length xs - 1") (simp_all add: min_def, arith+)
    finally show ?thesis .
  qed
qed

lemma sample_by_mset: "mset (sample_by ps xs) \<subseteq># mset xs"
proof (induction ps xs rule: sample_by.induct)
  case (1 xs)
  show ?case by simp
next
  case (2 p ps xs)
  show ?case
  proof (cases "xs = []")
    case True
    then show ?thesis by simp
  next
    case False
    define i where "i = p mod length xs"
    define rest where "rest = take i xs @ drop (Suc i) xs"
    have lt: "i < length xs" using False by (simp add: i_def)
    have split: "xs = take i xs @ xs ! i # drop (Suc i) xs"
      using lt by (rule id_take_nth_drop)
    have m: "mset xs = add_mset (xs ! i) (mset rest)"
      by (subst split) (simp add: rest_def)
    have ih: "mset (sample_by ps rest) \<subseteq># mset rest"
      using "2.IH" [OF False] by (simp add: rest_def i_def)
    have "sample_by (p # ps) xs = xs ! i # sample_by ps rest"
      using False by (simp add: rest_def i_def)
    then show ?thesis using ih m by simp
  qed
qed

declare sample_by.simps [simp del]

lemma get_subtopic_nodes_unvisited:
  "n \<in> set (get_subtopic_nodes e main_topic strategy visited) \<Longrightarrow> node_id n \<notin> visited"
  by (auto simp: get_subtopic_nodes_def get_node_def split: option.splits)

lemma get_subtopic_nodes_known:
  "n \<in> set (get_subtopic_nodes e main_topic strategy visited) \<Longrightarrow>
   get_node e (node_id n) = Some n \<and> node_id n \<in> set (get_subtopics e main_topic strategy)"
  by (auto simp: get_subtopic_nodes_def get_node_def split: option.splits)

lemma candidate_nodes_spec:
  "candidate_nodes e main_topic strategy visited = spec_candidates e main_topic strategy visited"
  by (simp add: candidate_nodes_def spec_candidates_def Let_def)

lemma spec_candidates_unvisited:
  assumes "n \<in> set (spec_candidates e main_topic strategy visited)"
  shows "node_id n \<notin> visited"
proof -
  let ?ls = "map (\<lambda>s. get_subtopic_nodes e main_topic s visited)
               [strategy, ''deeper'', ''branch'', ''pivot'']"
  from assms obtain l where "find (\<lambda>l. l \<noteq> []) ?ls = Some l" and nl: "n \<in> set l"
    by (cases "find (\<lambda>l. l \<noteq> []) ?ls") (simp_all add: spec_candidates_def)
  then have "l \<in> set ?ls" by (metis find_Some_iff nth_mem)
  then obtain s where "l = get_subtopic_nodes e main_topic s visited" by auto
  with nl show ?thesis by (simp add: get_subtopic_nodes_unvisited)
qed

lemma mock_next_nodes_props:
  "mset (mock_next_nodes e r main_topic strategy visited)
      \<subseteq># mset (spec_candidates e main_topic strategy visited)
   \<and> length (mock_next_nodes e r main_topic strategy visited) \<le> 3
   \<and> (length (spec_candidates e main_topic strategy visited) \<le> 3 \<longrightarrow>
        mock_next_nodes e r main_topic strategy visited
          = spec_candidates e main_topic strategy visited)
   \<and> (length (spec_candidates e main_topic strategy visited) > 3 \<longrightarrow>
        length (mock_next_nodes e r main_topic strategy visited) = 3)"
proof (cases "length (spec_candidates e main_topic strategy visited) > 3")
  case True
  define c where "c = spec_candidates e main_topic strategy visited"
  define ps where "ps = map (sample_pick r) [0, 1, 2]"
  have m: "mock_next_nodes e r main_topic strategy visited = sample_by ps c"
    using True by (simp add: mock_next_nodes_def candidate_nodes_spec c_def ps_def Let_def)
  have "length ps = 3" by (simp add: ps_def)
  then have "length (sample_by ps c) = 3"
    using True by (simp add: sample_by_length c_def)
  moreover have "mset (sample_by ps c) \<subseteq># mset c" by (rule sample_by_mset)
  ultimately show ?thesis using True m by (simp add: c_def)
next
  case False
  then have "mock_next_nodes e r main_topic strategy visited
      = spec_candidates e main_topic strategy visited"
    by (simp add: mock_next_nodes_def candidate_nodes_spec Let_def)
  then show ?thesis using False by simp
qed

lemma mock_next_nodes_unvisited:
  assumes "n \<in> set (mock_next_nodes e r main_topic strategy visited)"
  shows "node_id n \<notin> visited"
proof -
  have "set (mock_next_nodes e r main_topic strategy visited)
      \<subseteq> set (spec_candidates e main_topic strategy visited)"
    using mock_next_nodes_props [of e r main_topic strategy visited]
    by (metis set_mset_mono set_mset_mset)
  with assms show ?thesis by (auto dest: spec_candidates_unvisited)
qed

subsection \<open>Sampling without replacement\<close>

lemma sample_by_map: "sample_by ps (map f ys) = map f (sample_by ps ys)"
proof (induction ps arbitrary: ys)
  case Nil
  show ?case by (simp add: sample_by.simps)
next
  case (Cons p ps)
  show ?case
  proof (cases "ys = []")
    case True
    then show ?thesis by (simp add: sample_by.simps)
  next
    case False
    define i where "i = p mod length ys"
    have lt: "i < length ys" using False by (simp add: i_def)
    have "sample_by (p # ps) (map f ys)
        = map f ys ! i # sample_by ps (map f (take i ys @ drop (Suc i) ys))"
      using False by (simp add: sample_by.simps i_def take_map drop_map)
    also have "\<dots> = f (ys ! i) # map f (sample_by ps (take i ys @ drop (Suc i) ys))"
      using lt Cons.IH [of "take i ys @ drop (Suc i) ys"] by simp
    also have "\<dots> = map f (sample_by (p # ps) ys)"
      using False by (simp add: sample_by.simps i_def)
    finally show ?thesis .
  qed
qed

lemma sample_by_positions:
  "sample_by ps xs = map ((!) xs) (sample_by ps [0..<length xs])"
proof -
  have "sample_by ps (map ((!) xs) [0..<length xs])
      = map ((!) xs) (sample_by ps [0..<length xs])"
    by (rule sample_by_map)
  then show ?thesis by (simp add: map_nth)
qed

lemma sample_by_step:
  "p < length xs \<Longrightarrow>
   sample_by (p # ps) xs = xs ! p # sample_by ps (take p xs @ drop (Suc p) xs)"
  by (cases xs) (simp_all add: sample_by.simps)

lemma distinct_remove_nth:
  assumes "distinct xs" "p < length xs"
  shows "distinct (take p xs @ drop (Suc p) xs)"
    and "set (take p xs @ drop (Suc p) xs) = set xs - {xs ! p}"
    and "length (take p xs @ drop (Suc p) xs) = length xs - 1"
proof -
  have split: "xs = take p xs @ xs ! p # drop (Suc p) xs"
    using assms(2) by (rule id_take_nth_drop)
  have d: "distinct (take p xs @ xs ! p # drop (Suc p) xs)"
    using assms(1) split by simp
  show "distinct (take p xs @ drop (Suc p) xs)" using d by simp
  have "set xs = set (take p xs @ xs ! p # drop (Suc p) xs)" using split by simp
  then show "set (take p xs @ drop (Suc p) xs) = set xs - {xs ! p}"
    using d by auto
  show "length (take p xs @ drop (Suc p) xs) = length xs - 1"
    using assms(2) by simp
qed

lemma in_box_length: "in_box ps n \<Longrightarrow> length ps \<le> n"
proof (induction ps arbitrary: n)
  case Nil
  show ?case by simp
next
  case (Cons p ps)
  then have "p < n" "length ps \<le> n - 1" by simp_all
  then show ?case by simp
qed

lemma sample_by_distinct:
  assumes "distinct xs"
  shows "distinct (sample_by ps xs) \<and> set (sample_by ps xs) \<subseteq> set xs"
  using assms
proof (induction ps arbitrary: xs)
  case Nil
  show ?case by (simp add: sample_by.simps)
next
  case (Cons p ps)
  show ?case
  proof (cases "xs = []")
    case True
    then show ?thesis by (simp add: sample_by.simps)
  next
    case False
    define i where "i = p mod length xs"
    define rest where "rest = take i xs @ drop (Suc i) xs"
    have lt: "i < length xs" using False by (simp add: i_def)
    have r: "distinct rest" "set rest = set xs - {xs ! i}"
      unfolding rest_def using distinct_remove_nth [OF Cons.prems lt] by simp_all
    have ih: "distinct (sample_by ps rest)" "set (sample_by ps rest) \<subseteq> set rest"
      using Cons.IH [OF r(1)] by simp_all
    have eq: "sample_by (p # ps) xs = xs ! i # sample_by ps rest"
      using False by (simp add: sample_by.simps i_def rest_def)
    have "xs ! i \<notin> set (sample_by ps rest)" using ih(2) r(2) by blast
    moreover have "xs ! i \<in> set xs" using lt by simp
    moreover have "set (sample_by ps rest) \<subseteq> set xs" using ih(2) r(2) by blast
    ultimately show ?thesis using eq ih(1) by simp
  qed
qed

lemma sample_by_inj:
  assumes "distinct xs" "in_box ps (length xs)" "in_box qs (length xs)"
    "length ps = length qs" "sample_by ps xs = sample_by qs xs"
  shows "ps = qs"
  using assms
proof (induction ps arbitrary: qs xs)
  case Nil
  then show ?case by simp
next
  case (Cons p ps)
  then obtain q qs' where q: "qs = q # qs'" by (cases qs) simp_all
  have p: "p < length xs" "in_box ps (length xs - 1)" using Cons.prems(2) by simp_all
  have q': "q < length xs" "in_box qs' (length xs - 1)" using Cons.prems(3) q by simp_all
  have eq: "xs ! p # sample_by ps (take p xs @ drop (Suc p) xs)
      = xs ! q # sample_by qs' (take q xs @ drop (Suc q) xs)"
    using Cons.prems(5) q sample_by_step [OF p(1)] sample_by_step [OF q'(1)] by simp
  then have "xs ! p = xs ! q" by simp
  then have pq: "p = q" using Cons.prems(1) p(1) q'(1) by (simp add: nth_eq_iff_index_eq)
  define rest where "rest = take p xs @ drop (Suc p) xs"
  have r: "distinct rest" "length rest = length xs - 1"
    unfolding rest_def using distinct_remove_nth [OF Cons.prems(1) p(1)] by simp_all
  have "sample_by ps rest = sample_by qs' rest" using eq pq by (simp add: rest_def)
  moreover have "length ps = length qs'" using Cons.prems(4) q by simp
  ultimately have "ps = qs'"
    using Cons.IH [of rest qs'] r p(2) q'(2) by simp
  with pq q show ?case by simp
qed

lemma sample_by_surj:
  assumes "distinct ys" "set ys \<subseteq> set xs" "distinct xs"
  shows "\<exists>ps. length ps = length ys \<and> in_box ps (length xs) \<and> sample_by ps xs = ys"
  using assms
proof (induction ys arbitrary: xs)
  case Nil
  have "length ([]::nat list) = length ([]::'a list) \<and> in_box [] (length xs)
      \<and> sample_by [] xs = []"
    by (simp add: sample_by.simps)
  then show ?case by blast
next
  case (Cons y ys)
  from Cons.prems(2) have "y \<in> set xs" by simp
  then obtain p where p: "p < length xs" "xs ! p = y" by (auto simp: in_set_conv_nth)
  define rest where "rest = take p xs @ drop (Suc p) xs"
  have r: "distinct rest" "set rest = set xs - {y}" "length rest = length xs - 1"
    unfolding rest_def using distinct_remove_nth [OF Cons.prems(3) p(1)] p(2) by simp_all
  have "distinct ys" "set ys \<subseteq> set rest" using Cons.prems(1,2) r(2) by auto
  from Cons.IH [OF this r(1)]
  obtain ps where ps: "length ps = length ys" "in_box ps (length rest)" "sample_by ps rest = ys"
    by blast
  have "length (p # ps) = length (y # ys)" using ps(1) by simp
  moreover have "in_box (p # ps) (length xs)" using p(1) ps(2) r(3) by simp
  moreover have "sample_by (p # ps) xs = y # ys"
    using sample_by_step [OF p(1)] p(2) ps(3) by (simp add: rest_def)
  ultimately show ?case by blast
qed

lemma sample_by_bij:
  "bij_betw (\<lambda>ps. sample_by ps [0..<n]) {ps. length ps = k \<and> in_box ps n}
     {js. length js = k \<and> distinct js \<and> set js \<subseteq> {..<n}}"
  unfolding bij_betw_def
proof
  show "inj_on (\<lambda>ps. sample_by ps [0..<n]) {ps. length ps = k \<and> in_box ps n}"
  proof (rule inj_onI)
    fix ps qs
    assume a: "ps \<in> {ps. length ps = k \<and> in_box ps n}" "qs \<in> {ps. length ps = k \<and> in_box ps n}"
      "sample_by ps [0..<n] = sample_by qs [0..<n]"
    show "ps = qs"
      by (rule sample_by_inj [of "[0..<n]"]) (use a in simp_all)
  qed
  show "(\<lambda>ps. sample_by ps [0..<n]) ` {ps. length ps = k \<and> in_box ps n}
      = {js. length js = k \<and> distinct js \<and> set js \<subseteq> {..<n}}"
  proof (intro equalityI subsetI)
    fix js assume "js \<in> (\<lambda>ps. sample_by ps [0..<n]) ` {ps. length ps = k \<and> in_box ps n}"
    then obtain ps where ps: "length ps = k" "in_box ps n" "js = sample_by ps [0..<n]" by auto
    have "length ps \<le> n" using ps(2) by (rule in_box_length)
    then have "length js = k" using ps(1,3) by (simp add: sample_by_length)
    moreover have "distinct js \<and> set js \<subseteq> set [0..<n]"
      unfolding ps(3) by (rule sample_by_distinct) simp
    ultimately show "js \<in> {js. length js = k \<and> distinct js \<and> set js \<subseteq> {..<n}}"
      by (simp add: atLeast0LessThan)
  next
    fix js assume "js \<in> {js. length js = k \<and> distinct js \<and> set js \<subseteq> {..<n}}"
    then have js: "length js = k" "distinct js" "set js \<subseteq> set [0..<n]"
      by (simp_all add: atLeast0LessThan)
    from sample_by_surj [OF js(2,3)]
    obtain ps where "length ps = length js" "in_box ps (length [0..<n])"
      "sample_by ps [0..<n] = js" by auto
    then show "js \<in> (\<lambda>ps. sample_by ps [0..<n]) ` {ps. length ps = k \<and> in_box ps n}"
      using js(1) by force
  qed
qed

subsection \<open>Blocks of the mock path\<close>

lemma text_role_for_media_valid: "text_role_for_media m \<in> VALID_GROUP_ROLES_TEXT"
  by (simp add: text_role_for_media_def VALID_GROUP_ROLES_TEXT_def)

lemma text_block_valid:
  "role \<in> VALID_GROUP_ROLES_TEXT \<Longrightarrow>
   validate_content_block (text_block bid txt gid role) = Inr []"
  by (simp add: validate_content_block_def text_block_def role_errors_def missing_keys_def)

lemma media_block_valid:
  assumes "m \<in> set MEDIA_TYPES"
  shows "validate_content_block (media_block e bid m label gid) = Inr []"
proof -
  have cases: "m = ''unsplash'' \<or> m = ''wikipedia_image'' \<or> m = ''wikimedia'' \<or> m = ''reddit''
      \<or> m = ''xkcd'' \<or> m = ''meme'' \<or> m = ''tweet''"
    using assms by (simp add: MEDIA_TYPES_def)
  have mem: "in_str_list (PStr m) MEDIA_TYPES" using assms by simp
  have nt: "PStr m \<noteq> PStr ''text''" using cases by auto
  have role: "media_role_for_type m \<in> VALID_GROUP_ROLES_MEDIA" "media_role_for_type m \<noteq> []"
    by (simp_all add: media_role_for_type_def VALID_GROUP_ROLES_MEDIA_def)
  have media: "media_errors [(''id'', PStr bid), (''type'', PStr m),
      (''content'', PStr (label @ '' '' @ em_dash @ '' '' @ m @ '' content'')),
      (''group_id'', PStr gid), (''group_role'', PStr (media_role_for_type m)),
      (''media'', generate_mock_media e m label)] = []"
    by (simp add: media_errors_def generate_mock_media_def unsplash_media_def Let_def)
  show ?thesis
    using mem nt role media
    by (simp add: validate_content_block_def media_block_def role_errors_def missing_keys_def)
qed

lemma media_role_for_type_valid: "media_role_for_type m \<in> VALID_GROUP_ROLES_MEDIA"
  by (simp add: media_role_for_type_def VALID_GROUP_ROLES_MEDIA_def)

lemma text_block_ok:
  "role \<in> VALID_GROUP_ROLES_TEXT \<Longrightarrow> spec_block_ok (text_block bid txt gid role)"
  by (simp add: spec_block_ok_def text_block_def)

lemma media_block_ok:
  assumes "m \<in> set MEDIA_TYPES"
  shows "spec_block_ok (media_block e bid m label gid)"
proof -
  have cases: "m = ''unsplash'' \<or> m = ''wikipedia_image'' \<or> m = ''wikimedia'' \<or> m = ''reddit''
      \<or> m = ''xkcd'' \<or> m = ''meme'' \<or> m = ''tweet''"
    using assms by (simp add: MEDIA_TYPES_def)
  have nt: "m \<noteq> ''text''" using cases by auto
  have media: "\<exists>d. generate_mock_media e m label = PDict d \<and> map_of d ''url'' \<noteq> None
      \<and> map_of d ''source'' \<noteq> None"
    by (simp add: generate_mock_media_def unsplash_media_def Let_def)
  then obtain d where d: "generate_mock_media e m label = PDict d" "map_of d ''url'' \<noteq> None"
    "map_of d ''source'' \<noteq> None" by blast
  show ?thesis
    using assms nt d media_role_for_type_valid [of m]
    by (simp add: spec_block_ok_def media_block_def)
qed

lemma id_digits_text: "id_digits (block_id (text_block (uid ''text'' u) txt gid role)) = u"
  by (simp add: id_digits_def block_id_def text_block_def uid_def)

lemma id_digits_media:
  assumes "m \<in> set MEDIA_TYPES"
  shows "id_digits (block_id (media_block e (uid m u) m label gid)) = u"
proof -
  have "m = ''unsplash'' \<or> m = ''wikipedia_image'' \<or> m = ''wikimedia'' \<or> m = ''reddit''
      \<or> m = ''xkcd'' \<or> m = ''meme'' \<or> m = ''tweet''"
    using assms by (simp add: MEDIA_TYPES_def)
  then show ?thesis
    by (elim disjE) (simp_all add: id_digits_def block_id_def media_block_def uid_def)
qed

lemma new_tracker_default_ok: "tracker_ok MEDIA_TYPES (new_tracker None)"
  by (simp add: new_tracker_def tracker_ok_def)

lemma MEDIA_TYPES_not_empty: "MEDIA_TYPES \<noteq> []"
  by (simp add: MEDIA_TYPES_def)

lemma groups_loop_props:
  assumes "\<forall>j. i \<le> j \<and> j < i + k \<longrightarrow> mset (shuffled r j) = mset MEDIA_TYPES"
    and "tracker_ok MEDIA_TYPES tr"
  shows "\<exists>blocks. groups_loop e r topic_id main_topic strategy i k tr used = Inr blocks
           \<and> length blocks = 2 * k
           \<and> (\<forall>b\<in>set blocks. validate_content_block b = Inr [] \<and> spec_block_ok b)
           \<and> (\<forall>b\<in>set blocks. \<exists>j. 3 * i \<le> j \<and> j < 3 * (i + k) \<and> j mod 3 \<noteq> 0
                  \<and> id_digits (block_id b) = uuid8 r j)
           \<and> (inj_on (uuid8 r) {j. j < 3 * (i + k) \<and> j mod 3 \<noteq> 0}
                \<longrightarrow> distinct (map block_id blocks))"
  using assms
proof (induction k arbitrary: i tr used)
  case 0
  then show ?case by simp
next
  case (Suc k)
  have here: "mset (shuffled r i) = mset MEDIA_TYPES" using Suc.prems(1) by simp
  have later: "\<forall>j. Suc i \<le> j \<and> j < Suc i + k \<longrightarrow> mset (shuffled r j) = mset MEDIA_TYPES"
    using Suc.prems(1) by simp
  from next_type_member [OF MEDIA_TYPES_not_empty here Suc.prems(2)]
  obtain m tr' where nt: "next_type (shuffled r i) tr = Inr (m, tr')"
    "m \<in> set MEDIA_TYPES" "tracker_ok MEDIA_TYPES tr'" by blast
  define gid where "gid = uid ''grp'' (uuid8 r (3 * i))"
  define tx where "tx = pick_text e (choice r i) main_topic strategy used"
  define tb where "tb = text_block (uid ''text'' (uuid8 r (3 * i + 1))) tx gid
      (text_role_for_media m)"
  define mb where "mb = media_block e (uid m (uuid8 r (3 * i + 2))) m (label_of e topic_id) gid"
  from Suc.IH [OF later nt(3), of "insert tx used"]
  obtain rest where r: "groups_loop e r topic_id main_topic strategy (Suc i) k tr'
        (insert tx used) = Inr rest"
    "length rest = 2 * k"
    "\<forall>b\<in>set rest. validate_content_block b = Inr [] \<and> spec_block_ok b"
    "\<forall>b\<in>set rest. \<exists>j. 3 * Suc i \<le> j \<and> j < 3 * (Suc i + k) \<and> j mod 3 \<noteq> 0
        \<and> id_digits (block_id b) = uuid8 r j"
    "inj_on (uuid8 r) {j. j < 3 * (Suc i + k) \<and> j mod 3 \<noteq> 0}
       \<longrightarrow> distinct (map block_id rest)"
    by blast
  have res: "groups_loop e r topic_id main_topic strategy i (Suc k) tr used
      = Inr (tb # mb # rest)"
    using nt(1) r(1) by (simp add: Let_def gid_def tx_def tb_def mb_def)
  have vt: "validate_content_block tb = Inr []"
    unfolding tb_def by (rule text_block_valid [OF text_role_for_media_valid])
  have vm: "validate_content_block mb = Inr []"
    unfolding mb_def by (rule media_block_valid [OF nt(2)])
  have ot: "spec_block_ok tb"
    unfolding tb_def by (rule text_block_ok [OF text_role_for_media_valid])
  have om: "spec_block_ok mb"
    unfolding mb_def by (rule media_block_ok [OF nt(2)])
  have m1: "(3 * i + 1) mod 3 \<noteq> 0" by presburger
  have m2: "(3 * i + 2) mod 3 \<noteq> 0" by presburger
  have dt: "id_digits (block_id tb) = uuid8 r (3 * i + 1)"
    unfolding tb_def by (rule id_digits_text)
  have dm: "id_digits (block_id mb) = uuid8 r (3 * i + 2)"
    unfolding mb_def by (rule id_digits_media [OF nt(2)])
  have range: "\<forall>b\<in>set (tb # mb # rest). \<exists>j. 3 * i \<le> j \<and> j < 3 * (i + Suc k)
      \<and> j mod 3 \<noteq> 0 \<and> id_digits (block_id b) = uuid8 r j"
  proof
    fix b assume "b \<in> set (tb # mb # rest)"
    then consider "b = tb" | "b = mb" | "b \<in> set rest" by auto
    then show "\<exists>j. 3 * i \<le> j \<and> j < 3 * (i + Suc k) \<and> j mod 3 \<noteq> 0
        \<and> id_digits (block_id b) = uuid8 r j"
    proof cases
      case 1
      have "3 * i \<le> 3 * i + 1 \<and> 3 * i + 1 < 3 * (i + Suc k)" by simp
      with dt 1 m1 show ?thesis by blast
    next
      case 2
      have "3 * i \<le> 3 * i + 2 \<and> 3 * i + 2 < 3 * (i + Suc k)" by simp
      with dm 2 m2 show ?thesis by blast
    next
      case 3
      with r(4) obtain j where "3 * Suc i \<le> j" "j < 3 * (Suc i + k)" "j mod 3 \<noteq> 0"
        "id_digits (block_id b) = uuid8 r j" by blast
      moreover from this have "3 * i \<le> j \<and> j < 3 * (i + Suc k)" by simp
      ultimately show ?thesis by blast
    qed
  qed
  have dist: "distinct (map block_id (tb # mb # rest))"
    if inj: "inj_on (uuid8 r) {j. j < 3 * (i + Suc k) \<and> j mod 3 \<noteq> 0}"
  proof -
    have inj': "inj_on (uuid8 r) {j. j < 3 * (Suc i + k) \<and> j mod 3 \<noteq> 0}" using inj by simp
    have dr: "distinct (map block_id rest)" using r(5) inj' by simp
    have ne: "uuid8 r a \<noteq> uuid8 r b"
      if "a < 3 * (i + Suc k)" "b < 3 * (i + Suc k)" "a mod 3 \<noteq> 0" "b mod 3 \<noteq> 0" "a \<noteq> b"
      for a b using inj that by (auto simp: inj_on_def)
    have far: "id_digits (block_id b) \<noteq> uuid8 r a"
      if "b \<in> set rest" "a < 3 * Suc i" "a mod 3 \<noteq> 0" for a b
    proof -
      from r(4) that(1) obtain j where j: "3 * Suc i \<le> j" "j < 3 * (Suc i + k)" "j mod 3 \<noteq> 0"
        "id_digits (block_id b) = uuid8 r j" by blast
      have "uuid8 r j \<noteq> uuid8 r a"
        using j(1,2,3) that(2,3) by (intro ne) simp_all
      with j(4) show ?thesis by simp
    qed
    have t_m: "block_id tb \<noteq> block_id mb"
    proof
      assume "block_id tb = block_id mb"
      then have "uuid8 r (3 * i + 1) = uuid8 r (3 * i + 2)" using dt dm by simp
      moreover have "uuid8 r (3 * i + 1) \<noteq> uuid8 r (3 * i + 2)"
        using m1 m2 by (intro ne) simp_all
      ultimately show False by simp
    qed
    have t_r: "block_id tb \<notin> set (map block_id rest)"
    proof
      assume "block_id tb \<in> set (map block_id rest)"
      then obtain b where b: "b \<in> set rest" "block_id b = block_id tb" by auto
      have "id_digits (block_id b) \<noteq> uuid8 r (3 * i + 1)"
        by (rule far [OF b(1) _ m1]) simp
      with b(2) dt show False by simp
    qed
    have m_r: "block_id mb \<notin> set (map block_id rest)"
    proof
      assume "block_id mb \<in> set (map block_id rest)"
      then obtain b where b: "b \<in> set rest" "block_id b = block_id mb" by auto
      have "id_digits (block_id b) \<noteq> uuid8 r (3 * i + 2)"
        by (rule far [OF b(1) _ m2]) simp
      with b(2) dm show False by simp
    qed
    show ?thesis using t_m t_r m_r dr by simp
  qed
  show ?case
    using res r(2) vt vm ot om r(3) range dist by simp
qed

lemma generate_content_blocks_returns:
  assumes "\<forall>j<num_groups. mset (shuffled r j) = mset MEDIA_TYPES"
  shows "\<exists>blocks. generate_content_blocks e r topic_id strategy visited_nodes num_groups
           = Inr (blocks, map node_dict (mock_next_nodes e r (main_topic_of e topic_id) strategy
                                          (set visited_nodes)))
         \<and> length blocks = 2 * num_groups
         \<and> (\<forall>b\<in>set blocks. validate_content_block b = Inr [] \<and> spec_block_ok b)
         \<and> (inj_on (uuid8 r) {j. j < 3 * num_groups \<and> j mod 3 \<noteq> 0}
              \<longrightarrow> distinct (map block_id blocks))"
proof -
  have sh: "\<forall>j. 0 \<le> j \<and> j < 0 + num_groups \<longrightarrow> mset (shuffled r j) = mset MEDIA_TYPES"
    using assms by simp
  from groups_loop_props [OF sh new_tracker_default_ok,
      of e topic_id "main_topic_of e topic_id" strategy "{}"]
  obtain blocks where b:
    "groups_loop e r topic_id (main_topic_of e topic_id) strategy 0 num_groups (new_tracker None) {}
       = Inr blocks"
    "length blocks = 2 * num_groups"
    "\<forall>b\<in>set blocks. validate_content_block b = Inr [] \<and> spec_block_ok b"
    "inj_on (uuid8 r) {j. j < 3 * (0 + num_groups) \<and> j mod 3 \<noteq> 0}
       \<longrightarrow> distinct (map block_id blocks)"
    by blast
  have "generate_content_blocks e r topic_id strategy visited_nodes num_groups
      = Inr (blocks, map node_dict (mock_next_nodes e r (main_topic_of e topic_id) strategy
                                      (set visited_nodes)))"
    using b(1) by (simp add: generate_content_blocks_def Let_def)
  with b(2,3,4) show ?thesis by simp
qed

lemma mock_next_nodes_sampled:
  assumes "length (spec_candidates e main_topic strategy visited) > 3"
  shows "mock_next_nodes e r main_topic strategy visited
      = map ((!) (spec_candidates e main_topic strategy visited))
          (sample_by (map (sample_pick r) [0, 1, 2])
             [0..<length (spec_candidates e main_topic strategy visited)])"
proof -
  have "mock_next_nodes e r main_topic strategy visited
      = sample_by (map (sample_pick r) [0, 1, 2]) (spec_candidates e main_topic strategy visited)"
    using assms by (simp add: mock_next_nodes_def candidate_nodes_spec Let_def)
  then show ?thesis by (simp only: sample_by_positions [symmetric])
qed

lemma sample_positions_three:
  assumes "3 \<le> n"
  shows "length (sample_by [a, b, c] [0..<n]) = 3
      \<and> distinct (sample_by [a, b, c] [0..<n])
      \<and> set (sample_by [a, b, c] [0..<n]) \<subseteq> {..<n}"
proof -
  have "length (sample_by [a, b, c] [0..<n]) = 3"
    using assms by (simp add: sample_by_length)
  moreover have "distinct (sample_by [a, b, c] [0..<n])
      \<and> set (sample_by [a, b, c] [0..<n]) \<subseteq> set [0..<n]"
    by (rule sample_by_distinct) simp
  ultimately show ?thesis by (simp add: atLeast0LessThan)
qed

lemma demo_shuffles: "\<forall>j<n. mset (shuffled demo_rnd j) = mset MEDIA_TYPES"
  by (simp add: demo_rnd_def)




text \<open>
  C4: for every topic, strategy and visited list, and whatever is drawn, the mock
  assembler returns, and its suggestions are nodes outside the visited set taken from the
  candidate list: the list of the active strategy minus the visited nodes, else the first
  non-empty one among deeper, branch and pivot, else nothing.  Up to three candidates are
  all suggested, in their order.  Of more than three, exactly three are suggested: those
  at the three pairwise different positions that the three draws of \<^verbatim>\<open>random.sample\<close>
  select.  The draws in range correspond one to one to the ordered selections of three
  different positions, so uniform draws give every such selection the same chance.
\<close>

theorem generate_content_blocks_next_nodes:
  assumes "\<forall>j<num_groups. mset (shuffled r j) = mset MEDIA_TYPES"
  shows "\<exists>blocks ns.
           generate_content_blocks e r topic_id strategy visited_nodes num_groups
             = Inr (blocks, map node_dict ns)
         \<and> list_all (\<lambda>n. node_id n \<notin> set visited_nodes) ns
         \<and> length ns = min 3 (length (spec_candidates e (main_topic_of e topic_id) strategy
                                          (set visited_nodes)))
         \<and> (length (spec_candidates e (main_topic_of e topic_id) strategy (set visited_nodes))
              \<le> 3 \<longrightarrow>
            ns = spec_candidates e (main_topic_of e topic_id) strategy (set visited_nodes))
         \<and> (length (spec_candidates e (main_topic_of e topic_id) strategy (set visited_nodes))
              > 3 \<longrightarrow>
            (\<exists>js. js = sample_by (map (sample_pick r) [0, 1, 2])
                         [0..<length (spec_candidates e (main_topic_of e topic_id) strategy
                                        (set visited_nodes))]
                \<and> length js = 3 \<and> distinct js
                \<and> set js \<subseteq> {..<length (spec_candidates e (main_topic_of e topic_id) strategy
                                             (set visited_nodes))}
                \<and> ns = map ((!) (spec_candidates e (main_topic_of e topic_id) strategy
                                      (set visited_nodes))) js))
         \<and> bij_betw
              (\<lambda>ps. sample_by ps [0..<length (spec_candidates e (main_topic_of e topic_id)
                                                 strategy (set visited_nodes))])
              {ps. length ps = 3
                   \<and> in_box ps (length (spec_candidates e (main_topic_of e topic_id) strategy
                                           (set visited_nodes)))}
              {js. length js = 3 \<and> distinct js
                   \<and> set js \<subseteq> {..<length (spec_candidates e (main_topic_of e topic_id)
                                                strategy (set visited_nodes))}}"
proof -
  define ns where "ns = mock_next_nodes e r (main_topic_of e topic_id) strategy (set visited_nodes)"
  define cs where "cs = spec_candidates e (main_topic_of e topic_id) strategy (set visited_nodes)"
  from generate_content_blocks_returns [OF assms, of e topic_id strategy visited_nodes]
  obtain blocks where g:
    "generate_content_blocks e r topic_id strategy visited_nodes num_groups
       = Inr (blocks, map node_dict ns)"
    unfolding ns_def by blast
  have unvisited: "list_all (\<lambda>n. node_id n \<notin> set visited_nodes) ns"
    unfolding list_all_iff ns_def using mock_next_nodes_unvisited by blast
  have p: "mset ns \<subseteq># mset cs \<and> length ns \<le> 3 \<and> (length cs \<le> 3 \<longrightarrow> ns = cs)
      \<and> (length cs > 3 \<longrightarrow> length ns = 3)"
    unfolding ns_def cs_def by (rule mock_next_nodes_props)
  have len: "length ns = min 3 (length cs)"
    using p by (cases "length cs \<le> 3") simp_all
  have few: "length cs \<le> 3 \<longrightarrow> ns = cs" using p by simp
  have many: "length cs > 3 \<longrightarrow>
      (\<exists>js. js = sample_by (map (sample_pick r) [0, 1, 2]) [0..<length cs]
          \<and> length js = 3 \<and> distinct js \<and> set js \<subseteq> {..<length cs}
          \<and> ns = map ((!) cs) js)"
  proof
    assume gt: "length cs > 3"
    have "ns = map ((!) cs) (sample_by (map (sample_pick r) [0, 1, 2]) [0..<length cs])"
      unfolding ns_def cs_def using gt [unfolded cs_def] by (rule mock_next_nodes_sampled)
    moreover have "length (sample_by [sample_pick r 0, sample_pick r 1, sample_pick r 2]
          [0..<length cs]) = 3
        \<and> distinct (sample_by [sample_pick r 0, sample_pick r 1, sample_pick r 2]
          [0..<length cs])
        \<and> set (sample_by [sample_pick r 0, sample_pick r 1, sample_pick r 2]
          [0..<length cs]) \<subseteq> {..<length cs}"
      by (rule sample_positions_three) (use gt in simp)
    ultimately show "\<exists>js. js = sample_by (map (sample_pick r) [0, 1, 2]) [0..<length cs]
          \<and> length js = 3 \<and> distinct js \<and> set js \<subseteq> {..<length cs}
          \<and> ns = map ((!) cs) js"
      by simp
  qed
  have bij: "bij_betw (\<lambda>ps. sample_by ps [0..<length cs])
      {ps. length ps = 3 \<and> in_box ps (length cs)}
      {js. length js = 3 \<and> distinct js \<and> set js \<subseteq> {..<length cs}}"
    by (rule sample_by_bij)
  from g unvisited len few many bij show ?thesis unfolding cs_def by blast
qed

theorem generate_content_blocks_next_nodes_witness:
  "\<exists>blocks. generate_content_blocks demo_env demo_rnd ''black-holes'' ''deeper'' [] 4
     = Inr (blocks,
            map node_dict
              [\<lparr>node_id = ''accretion-disk'', node_label = ''Accretion Disk'',
                node_description = ''Infalling matter''\<rparr>,
               \<lparr>node_id = ''singularity'', node_label = ''Singularity'',
                node_description = ''The centre''\<rparr>,
               \<lparr>node_id = ''hawking-radiation'', node_label = ''Hawking Radiation'',
                node_description = ''Black holes glow''\<rparr>])"
proof -
  let ?cs = "spec_candidates demo_env (main_topic_of demo_env ''black-holes'') ''deeper'' (set [])"
  let ?js = "sample_by (map (sample_pick demo_rnd) [0, 1, 2]) [0..<length ?cs]"
  have len: "length ?cs > 3" by code_simp
  have pos: "map ((!) ?cs) ?js
      = [\<lparr>node_id = ''accretion-disk'', node_label = ''Accretion Disk'',
          node_description = ''Infalling matter''\<rparr>,
         \<lparr>node_id = ''singularity'', node_label = ''Singularity'',
          node_description = ''The centre''\<rparr>,
         \<lparr>node_id = ''hawking-radiation'', node_label = ''Hawking Radiation'',
          node_description = ''Black holes glow''\<rparr>]"
    by code_simp
  from generate_content_blocks_next_nodes [of 4 demo_rnd demo_env "''black-holes''" "''deeper''"
      "[]", OF demo_shuffles]
  obtain blocks ns where g:
    "generate_content_blocks demo_env demo_rnd ''black-holes'' ''deeper'' [] 4
       = Inr (blocks, map node_dict ns)"
    and s: "length ?cs > 3 \<longrightarrow> (\<exists>js. js = ?js \<and> length js = 3 \<and> distinct js
        \<and> set js \<subseteq> {..<length ?cs} \<and> ns = map ((!) ?cs) js)"
    by blast
  from s len have "ns = map ((!) ?cs) ?js" by blast
  then have "ns = [\<lparr>node_id = ''accretion-disk'', node_label = ''Accretion Disk'',
          node_description = ''Infalling matter''\<rparr>,
         \<lparr>node_id = ''singularity'', node_label = ''Singularity'',
          node_description = ''The centre''\<rparr>,
         \<lparr>node_id = ''hawking-radiation'', node_label = ''Hawking Radiation'',
          node_description = ''Black holes glow''\<rparr>]"
    using pos by (rule trans)
  with g show ?thesis by blast
qed




subsection \<open>The live path\<close>

lemma plan_none_iff:
  "generate_content_with_claude c req = None \<longleftrightarrow> orchestrator_failed c req"
proof (cases "claude c")
  case None
  then show ?thesis by (simp add: generate_content_with_claude_def orchestrator_failed_def)
next
  case (Some client)
  have key: "(''groups'' \<in> set (map fst d)) = (map_of d ''groups'' \<noteq> None)"
    for d :: "(string \<times> pyval) list"
    by (simp add: map_of_eq_None_iff)
  have nonempty: "map_of d ''groups'' \<noteq> None \<Longrightarrow> truthy (PDict d)"
    for d :: "(string \<times> pyval) list"
    by (cases d) simp_all
  show ?thesis
  proof (cases "generate_json client req")
    case (PDict d)
    with Some show ?thesis
      using key [of d] nonempty [of d]
      by (auto simp: generate_content_with_claude_def orchestrator_failed_def Let_def)
  qed (use Some in \<open>simp_all add: generate_content_with_claude_def orchestrator_failed_def Let_def\<close>)
qed


lemma live_next_loop_returns:
  "(\<forall>v\<in>set ids. \<exists>s. v = PStr s) \<Longrightarrow> \<exists>next_nodes. live_next_loop e visited_set ids = Inr next_nodes"
proof (induction ids)
  case Nil
  show ?case by simp
next
  case (Cons nid rest)
  then obtain s where "nid = PStr s" by auto
  moreover from Cons obtain tail where "live_next_loop e visited_set rest = Inr tail" by auto
  ultimately show ?case by (simp split: option.splits)
qed


lemma generate_content_blocks_live_returns:
  assumes "generate_content_with_claude c
             (live_request e topic_id strategy visited_nodes last_paragraph engagement_score)
           = Some (PDict d)"
    and "py_iter (dget d ''groups'' (PList [])) = Inr group_list"
    and "live_groups e r c (label_of e topic_id) 0 group_list = Inr blocks"
    and "py_iter (dget d ''next_nodes'' (PList [])) = Inr ids"
    and "\<forall>v\<in>set ids. \<exists>s. v = PStr s"
  shows "\<exists>next_nodes.
           generate_content_blocks_live e r c topic_id strategy visited_nodes last_paragraph
               engagement_score
             = Inr (blocks, next_nodes)"
proof -
  from live_next_loop_returns [OF assms(5)]
  obtain found where "live_next_loop e (set visited_nodes) ids = Inr found" by blast
  then show ?thesis
    using assms(1-4) by (simp add: generate_content_blocks_live_def Let_def)
qed




text \<open>
  C6: for every topic, strategy, visited list, last paragraph and score, when the
  orchestrator is unavailable or its result is not a dictionary with the key
  \<^verbatim>\<open>groups\<close>, the live assembler returns what the mock assembler returns for the topic,
  the strategy and the visited list, with its four groups; and this result, whatever is
  drawn, has eight blocks, each of them valid and well formed.
\<close>

theorem live_falls_back_to_mock:
  assumes "orchestrator_failed c
             (live_request e topic_id strategy visited_nodes last_paragraph engagement_score)"
  shows "generate_content_blocks_live e r c topic_id strategy visited_nodes last_paragraph
             engagement_score
           = generate_content_blocks e r topic_id strategy visited_nodes 4
         \<and> ((\<forall>j<4. mset (shuffled r j) = mset MEDIA_TYPES) \<longrightarrow>
              (\<exists>blocks next_nodes.
                 generate_content_blocks_live e r c topic_id strategy visited_nodes last_paragraph
                     engagement_score
                   = Inr (blocks, next_nodes)
               \<and> length blocks = 8
               \<and> list_all (\<lambda>b. validate_content_block b = Inr []) blocks
               \<and> list_all spec_block_ok blocks))"
proof -
  have none: "generate_content_with_claude c
      (live_request e topic_id strategy visited_nodes last_paragraph engagement_score) = None"
    using assms by (simp only: plan_none_iff)
  have eq: "generate_content_blocks_live e r c topic_id strategy visited_nodes last_paragraph
        engagement_score
      = generate_content_blocks e r topic_id strategy visited_nodes 4"
    using none by (simp add: generate_content_blocks_live_def)
  have "\<exists>blocks next_nodes.
      generate_content_blocks e r topic_id strategy visited_nodes 4 = Inr (blocks, next_nodes)
      \<and> length blocks = 8
      \<and> list_all (\<lambda>b. validate_content_block b = Inr []) blocks
      \<and> list_all spec_block_ok blocks"
    if sh: "\<forall>j<4. mset (shuffled r j) = mset MEDIA_TYPES"
    using generate_content_blocks_returns [OF sh, of e topic_id strategy visited_nodes]
    unfolding list_all_iff by auto
  with eq show ?thesis by simp
qed

theorem live_falls_back_to_mock_witness:
  "generate_content_blocks_live demo_env demo_rnd broken_clients ''black-holes'' ''deeper''
       [''event-horizon''] (PStr ''Light cannot leave.'') (PFloat (fl (7 / 10)))
     = generate_content_blocks demo_env demo_rnd ''black-holes'' ''deeper'' [''event-horizon''] 4
   \<and> (\<exists>blocks next_nodes.
         generate_content_blocks_live demo_env demo_rnd broken_clients ''black-holes'' ''deeper''
             [''event-horizon''] (PStr ''Light cannot leave.'') (PFloat (fl (7 / 10)))
           = Inr (blocks, next_nodes)
       \<and> length blocks = 8
       \<and> list_all (\<lambda>b. validate_content_block b = Inr []) blocks
       \<and> list_all spec_block_ok blocks)"
proof -
  have "orchestrator_failed broken_clients
      (live_request demo_env ''black-holes'' ''deeper'' [''event-horizon'']
         (PStr ''Light cannot leave.'') (PFloat (fl (7 / 10))))"
    by (simp add: orchestrator_failed_def broken_clients_def)
  from live_falls_back_to_mock [OF this, of demo_rnd] demo_shuffles [of 4]
  show ?thesis by blast
qed




end
